theory Spec2Isabelle
  imports Complex_Main "HOL-Library.Word"
begin

section \<open>Values of the host language\<close>

text \<open>
  The three source files \<^verbatim>\<open>crc32.ts\<close>, \<^verbatim>\<open>sha224.ts\<close> and \<^verbatim>\<open>xxhash64.ts\<close> are
  embedded function by function. A byte is an \<open>8 word\<close>; an \<^verbatim>\<open>ArrayBuffer\<close> or a
  \<^verbatim>\<open>Uint8Array\<close> view of one is the list of its bytes.
\<close>

type_synonym byte = "8 word"
type_synonym bytes = "8 word list"

text \<open>
  A JavaScript \<^verbatim>\<open>number\<close>: every finite double is a rational, the rest are the three
  special values. Only \<^verbatim>\<open>Number.isInteger\<close>, the comparisons and the conversion to an
  unsigned 32-bit integer are used by the code, and all three are exact on rationals.
\<close>

datatype number = Num rat | NaN | PosInfinity | NegInfinity

fun isInteger :: "number \<Rightarrow> bool" where
  "isInteger (Num q) = (of_int \<lfloor>q\<rfloor> = q)"
| "isInteger NaN = False"
| "isInteger PosInfinity = False"
| "isInteger NegInfinity = False"

text \<open>The operator \<^verbatim>\<open><\<close> on numbers; every comparison with \<^verbatim>\<open>NaN\<close> is false.\<close>

fun num_less :: "number \<Rightarrow> number \<Rightarrow> bool" where
  "num_less (Num a) (Num b) = (a < b)"
| "num_less NaN _ = False"
| "num_less _ NaN = False"
| "num_less NegInfinity NegInfinity = False"
| "num_less NegInfinity _ = True"
| "num_less _ NegInfinity = False"
| "num_less PosInfinity _ = False"
| "num_less _ PosInfinity = True"

text \<open>
  \<^verbatim>\<open>ToUint32\<close> of the language standard, which \<^verbatim>\<open>DataView.setUint32\<close> applies to its
  value: truncate towards zero, then reduce modulo \<open>2 ^ 32\<close>; the special values give 0.
\<close>

fun ToUint32 :: "number \<Rightarrow> 32 word" where
  "ToUint32 (Num q) = word_of_int (if 0 \<le> q then \<lfloor>q\<rfloor> else \<lceil>q\<rceil>)"
| "ToUint32 NaN = 0"
| "ToUint32 PosInfinity = 0"
| "ToUint32 NegInfinity = 0"

datatype error =
    Error string
  | RangeError
  | TypeError
  | LoadError
  | ComputeError
  | IOError

text \<open>The input of a hash function (\<^verbatim>\<open>IDataType\<close>): a string, or a buffer or typed array.\<close>

datatype IDataType = StringData string | BufferData bytes

datatype outputType = Hex | Binary

datatype digestValue = HexString string | BinaryArray bytes

subsection \<open>DataView\<close>

definition le32 :: "32 word \<Rightarrow> bytes" where
  "le32 v = [ucast v, ucast (drop_bit 8 v), ucast (drop_bit 16 v), ucast (drop_bit 24 v)]"

definition be32 :: "32 word \<Rightarrow> bytes" where
  "be32 v = rev (le32 v)"

text \<open>
  \<^verbatim>\<open>new DataView(arr).setUint32(byteOffset, value, littleEndian)\<close>: a \<^verbatim>\<open>RangeError\<close> is
  thrown when the four bytes do not fit in the buffer.
\<close>

definition setUint32 :: "bytes \<Rightarrow> nat \<Rightarrow> number \<Rightarrow> bool \<Rightarrow> error + bytes" where
  "setUint32 arr byteOffset v littleEndian =
     (if byteOffset + 4 \<le> length arr
      then Inr (take byteOffset arr
                @ (if littleEndian then le32 (ToUint32 v) else be32 (ToUint32 v))
                @ drop (byteOffset + 4) arr)
      else Inl RangeError)"

section \<open>xxhash64.ts: seed validation and encoding\<close>

definition validateSeed :: "number \<Rightarrow> error option" where
  "validateSeed seed =
     (if \<not> isInteger seed \<or> num_less seed (Num 0) \<or> num_less (Num 0xFFFFFFFF) seed
      then Some (Error ''Seed must be given as two valid 32-bit long unsigned integer (lo + high).'')
      else None)"

text \<open>
  \<^verbatim>\<open>writeSeed\<close> mutates the buffer it is given: the result is the buffer after the call,
  with the exception thrown, if any (the first write stays when the second one throws).
\<close>

definition writeSeed :: "bytes \<Rightarrow> number \<Rightarrow> number \<Rightarrow> error option \<times> bytes" where
  "writeSeed arr low high =
     (case setUint32 arr 0 low True of
        Inl e \<Rightarrow> (Some e, arr)
      | Inr buffer \<Rightarrow>
          (case setUint32 buffer 4 high True of
             Inl e \<Rightarrow> (Some e, buffer)
           | Inr buffer' \<Rightarrow> (None, buffer')))"

section \<open>The collaborators that are not part of the three files\<close>

text \<open>
  The three files import \<^verbatim>\<open>WASMInterface\<close> (the Module Loader and the Compute Module
  wrapper it returns), \<^verbatim>\<open>lockedCreate\<close> and \<^verbatim>\<open>Mutex\<close> from files that are not among
  the sources. They are modelled from the specification (sections 3, 4.1, 4.2 and 4.3).
  The backend itself is opaque: what its entry points do is a parameter of the model
  (the record \<open>backend\<close>), so every theorem below holds for every backend.
\<close>

text \<open>The packaged descriptors: \<^verbatim>\<open>sha224.ts\<close> imports the SHA-256 binary.\<close>

datatype descriptor = Crc32Wasm | Sha256Wasm | Xxhash64Wasm

text \<open>The entry points of a backend module, with their arguments.\<close>

datatype call =
    InitCall "nat option"
  | UpdateCall IDataType
  | DigestCall outputType
  | SaveCall
  | LoadCall bytes

text \<open>
  A Compute Module (\<^verbatim>\<open>IWASMInterface\<close>): the descriptor and hash length it was created
  with, its linear memory, and the entry points invoked on it so far, each with the
  content of the memory at the moment of the invocation.
\<close>

record IWASMInterface =
  binary :: descriptor
  hashLength :: nat
  memory :: bytes
  calls :: "(call \<times> bytes) list"

text \<open>
  The opaque part. \<open>loadError d n k\<close> is the failure, if any, of the Module Loader
  invocation number \<open>k\<close> (counted from 0) for descriptor \<open>d\<close> and hash length \<open>n\<close>.
  \<open>entryError c m\<close> is the exception, if any, that entry point \<open>c\<close> throws on module
  state \<open>m\<close>, \<open>entryMemory c m\<close> the memory it leaves, \<open>digestBytes m\<close> and
  \<open>stateBytes m\<close> what \<^verbatim>\<open>digest\<close> and \<^verbatim>\<open>save\<close> read from state \<open>m\<close>.
\<close>

record backend =
  loadError :: "descriptor \<Rightarrow> nat \<Rightarrow> nat \<Rightarrow> error option"
  memorySize :: "descriptor \<Rightarrow> nat"
  entryError :: "call \<Rightarrow> IWASMInterface \<Rightarrow> error option"
  entryMemory :: "call \<Rightarrow> IWASMInterface \<Rightarrow> bytes"
  digestBytes :: "IWASMInterface \<Rightarrow> bytes"
  stateBytes :: "IWASMInterface \<Rightarrow> bytes"

text \<open>The three source files, each with a \<^verbatim>\<open>mutex\<close> and a \<^verbatim>\<open>wasmCache\<close> of its own.\<close>

datatype algorithm = CRC32 | SHA224 | XXHASH64

text \<open>The Single-Flight Cache Cell of specification section 4.1.\<close>

datatype cell = Empty | Loading | Ready nat | Failed error

text \<open>
  The state of the program: the Compute Modules created so far (a store from addresses
  to module states, \<open>nextModule\<close> being the first unused address), the invocations of the
  Module Loader so far, and the module-level variables of the three files:
  \<^verbatim>\<open>mutex\<close> and \<^verbatim>\<open>wasmCache\<close> of each file (\<^verbatim>\<open>null\<close> is \<open>None\<close>) and \<^verbatim>\<open>seedBuffer\<close>
  of \<^verbatim>\<open>xxhash64.ts\<close>.
\<close>

record world =
  modules :: "nat \<Rightarrow> IWASMInterface"
  nextModule :: nat
  loaderCalls :: "(descriptor \<times> nat) list"
  mutex :: "algorithm \<Rightarrow> cell"
  wasmCache :: "algorithm \<Rightarrow> nat option"
  seedBuffer :: bytes

text \<open>
  A promise, in a run where every call is left to settle before the next one starts:
  the outcome it settles with. It stays \<open>Pending\<close> when it waits for a load that some
  other call has in flight.
\<close>

datatype 'a promise = Fulfilled 'a | Rejected error | Pending

text \<open>
  \<^verbatim>\<open>p.then(f)\<close>: the callback runs on the value of a fulfilled promise; what it returns
  fulfils the new promise, what it throws rejects it; a rejection passes through.
\<close>

definition promise_then ::
  "'a promise \<times> world \<Rightarrow> ('a \<Rightarrow> world \<Rightarrow> (error + 'b) \<times> world) \<Rightarrow> 'b promise \<times> world" where
  "promise_then p f =
     (case p of
        (Fulfilled v, w) \<Rightarrow>
          (case f v w of
             (Inl e, w') \<Rightarrow> (Rejected e, w')
           | (Inr r, w') \<Rightarrow> (Fulfilled r, w'))
      | (Rejected e, w) \<Rightarrow> (Rejected e, w)
      | (Pending, w) \<Rightarrow> (Pending, w))"

subsection \<open>Module Loader\<close>

text \<open>
  Modelled from the spec: the Module Loader \<^verbatim>\<open>WASMInterface(binary, hashLength)\<close>
  (section 4.2), an asynchronous factory that produces a new Backend Module or fails
  with a load error. \<open>loader_invoke\<close> is the invocation, \<open>loader_settle\<close> the moment its
  promise settles: a success allocates the module at the first unused address, with a
  zeroed memory of the declared size and no entry point invoked yet.
\<close>

definition loader_invoke :: "descriptor \<Rightarrow> nat \<Rightarrow> world \<Rightarrow> world" where
  "loader_invoke d n w = w\<lparr>loaderCalls := loaderCalls w @ [(d, n)]\<rparr>"

definition loader_settle ::
  "backend \<Rightarrow> descriptor \<Rightarrow> nat \<Rightarrow> nat \<Rightarrow> world \<Rightarrow> nat promise \<times> world" where
  "loader_settle env d n k w =
     (case loadError env d n k of
        Some e \<Rightarrow> (Rejected e, w)
      | None \<Rightarrow>
          (Fulfilled (nextModule w),
           w\<lparr>modules := (modules w)(nextModule w :=
                  \<lparr>binary = d, hashLength = n,
                   memory = replicate (memorySize env d) 0, calls = []\<rparr>),
             nextModule := Suc (nextModule w)\<rparr>))"

definition WASMInterface :: "backend \<Rightarrow> descriptor \<Rightarrow> nat \<Rightarrow> world \<Rightarrow> nat promise \<times> world" where
  "WASMInterface env d n w =
     loader_settle env d n (length (loaderCalls w)) (loader_invoke d n w)"

subsection \<open>Single-flight creation\<close>

text \<open>
  Modelled from the spec: \<^verbatim>\<open>lockedCreate(mutex, binary, hashLength)\<close>, the
  \<^verbatim>\<open>getOrCreate\<close> of the Single-Flight Cache Cell (section 4.1) with the Module Loader
  as its factory; the cell is the \<^verbatim>\<open>mutex\<close> of the calling file. A failure is sticky:
  a \<open>Failed\<close> cell re-surfaces the recorded error and does not load again.
\<close>

definition lockedCreate ::
  "backend \<Rightarrow> algorithm \<Rightarrow> descriptor \<Rightarrow> nat \<Rightarrow> world \<Rightarrow> nat promise \<times> world" where
  "lockedCreate env a d n w =
     (case mutex w a of
        Empty \<Rightarrow>
          (case WASMInterface env d n w of
             (Fulfilled m, w') \<Rightarrow> (Fulfilled m, w'\<lparr>mutex := (mutex w')(a := Ready m)\<rparr>)
           | (Rejected e, w') \<Rightarrow> (Rejected e, w'\<lparr>mutex := (mutex w')(a := Failed e)\<rparr>)
           | (Pending, w') \<Rightarrow> (Pending, w'\<lparr>mutex := (mutex w')(a := Loading)\<rparr>))
      | Loading \<Rightarrow> (Pending, w)
      | Ready m \<Rightarrow> (Fulfilled m, w)
      | Failed e \<Rightarrow> (Rejected e, w))"

subsection \<open>Compute Module wrapper\<close>

text \<open>
  Modelled from the spec: the operations of the Compute Module wrapper (section 4.3),
  the methods of \<^verbatim>\<open>IWASMInterface\<close>. Each takes the address of the module in the store
  and returns what the method returns or throws, with the state after the call.
\<close>

definition entry :: "backend \<Rightarrow> call \<Rightarrow> IWASMInterface \<Rightarrow> IWASMInterface" where
  "entry env c m = m\<lparr>memory := entryMemory env c m, calls := calls m @ [(c, memory m)]\<rparr>"

definition run_entry :: "backend \<Rightarrow> nat \<Rightarrow> call \<Rightarrow> world \<Rightarrow> error option \<times> world" where
  "run_entry env a c w =
     (entryError env c (modules w a),
      w\<lparr>modules := (modules w)(a := entry env c (modules w a))\<rparr>)"

text \<open>
  \<^verbatim>\<open>writeMemory(bytes, offset = 0)\<close> copies the bytes into the linear memory and fails
  with \<open>ComputeError\<close> when they do not fit.
\<close>

definition wasm_writeMemory :: "nat \<Rightarrow> bytes \<Rightarrow> nat \<Rightarrow> world \<Rightarrow> (error + unit) \<times> world" where
  "wasm_writeMemory a bs offset w =
     (let m = modules w a in
      if offset + length bs \<le> length (memory m)
      then (Inr (),
            w\<lparr>modules := (modules w)(a :=
                 m\<lparr>memory := take offset (memory m) @ bs @ drop (offset + length bs) (memory m)\<rparr>)\<rparr>)
      else (Inl ComputeError, w))"

definition wasm_init :: "backend \<Rightarrow> nat \<Rightarrow> nat option \<Rightarrow> world \<Rightarrow> (error + unit) \<times> world" where
  "wasm_init env a variant w =
     (case run_entry env a (InitCall variant) w of
        (Some e, w') \<Rightarrow> (Inl e, w')
      | (None, w') \<Rightarrow> (Inr (), w'))"

definition wasm_update :: "backend \<Rightarrow> nat \<Rightarrow> IDataType \<Rightarrow> world \<Rightarrow> (error + unit) \<times> world" where
  "wasm_update env a data w =
     (case run_entry env a (UpdateCall data) w of
        (Some e, w') \<Rightarrow> (Inl e, w')
      | (None, w') \<Rightarrow> (Inr (), w'))"

definition hexDigit :: "nat \<Rightarrow> char" where
  "hexDigit n = ''0123456789abcdef'' ! (n mod 16)"

definition toHex :: "bytes \<Rightarrow> string" where
  "toHex bs = concat (map (\<lambda>b. [hexDigit (unat b div 16), hexDigit (unat b mod 16)]) bs)"

definition formatDigest :: "outputType \<Rightarrow> bytes \<Rightarrow> digestValue" where
  "formatDigest t bs = (case t of Hex \<Rightarrow> HexString (toHex bs) | Binary \<Rightarrow> BinaryArray bs)"

definition wasm_digest ::
  "backend \<Rightarrow> nat \<Rightarrow> outputType \<Rightarrow> world \<Rightarrow> (error + digestValue) \<times> world" where
  "wasm_digest env a t w =
     (case run_entry env a (DigestCall t) w of
        (Some e, w') \<Rightarrow> (Inl e, w')
      | (None, w') \<Rightarrow> (Inr (formatDigest t (digestBytes env (modules w a))), w'))"

definition wasm_save :: "backend \<Rightarrow> nat \<Rightarrow> world \<Rightarrow> (error + bytes) \<times> world" where
  "wasm_save env a w =
     (case run_entry env a SaveCall w of
        (Some e, w') \<Rightarrow> (Inl e, w')
      | (None, w') \<Rightarrow> (Inr (stateBytes env (modules w a)), w'))"

definition wasm_load :: "backend \<Rightarrow> nat \<Rightarrow> bytes \<Rightarrow> world \<Rightarrow> (error + unit) \<times> world" where
  "wasm_load env a blob w =
     (case run_entry env a (LoadCall blob) w of
        (Some e, w') \<Rightarrow> (Inl e, w')
      | (None, w') \<Rightarrow> (Inr (), w'))"

text \<open>\<^verbatim>\<open>calculate(data, variant?)\<close>: the composite of init, update and digest in hexadecimal.\<close>

definition wasm_calculate ::
  "backend \<Rightarrow> nat \<Rightarrow> IDataType \<Rightarrow> nat option \<Rightarrow> world \<Rightarrow> (error + string) \<times> world" where
  "wasm_calculate env a data variant w =
     (case wasm_init env a variant w of
        (Inl e, w1) \<Rightarrow> (Inl e, w1)
      | (Inr _, w1) \<Rightarrow>
          (case wasm_update env a data w1 of
             (Inl e, w2) \<Rightarrow> (Inl e, w2)
           | (Inr _, w2) \<Rightarrow>
               (case wasm_digest env a Hex w2 of
                  (Inl e, w3) \<Rightarrow> (Inl e, w3)
                | (Inr d, w3) \<Rightarrow> (Inr (toHex (digestBytes env (modules w2 a))), w3))))"

section \<open>The streaming handle\<close>

text \<open>
  \<^verbatim>\<open>IHasher\<close>: the object literal that the three \<^verbatim>\<open>create\<close> functions build. Its methods
  are closures over the private module \<^verbatim>\<open>wasm\<close>; the field \<open>wasm_ref\<close> records which module
  they captured. \<^verbatim>\<open>init\<close>, \<^verbatim>\<open>update\<close> and \<^verbatim>\<open>load\<close> return the object itself in the source,
  for chaining; here they return \<open>()\<close>. A property that the literal does not define is
  \<open>None\<close>.
\<close>

record IHasher =
  wasm_ref :: nat
  init :: "world \<Rightarrow> (error + unit) \<times> world"
  update :: "IDataType \<Rightarrow> world \<Rightarrow> (error + unit) \<times> world"
  digest :: "outputType \<Rightarrow> world \<Rightarrow> (error + digestValue) \<times> world"
  save :: "(world \<Rightarrow> (error + bytes) \<times> world) option"
  load :: "(bytes \<Rightarrow> world \<Rightarrow> (error + unit) \<times> world) option"
  blockSize :: nat
  digestSize :: nat

section \<open>crc32.ts\<close>

text \<open>The callback passed to \<^verbatim>\<open>then\<close> in \<^verbatim>\<open>crc32\<close> (lines 18 to 21).\<close>

definition crc32_loaded ::
  "backend \<Rightarrow> IDataType \<Rightarrow> nat \<Rightarrow> world \<Rightarrow> (error + string) \<times> world" where
  "crc32_loaded env data m w =
     (let w1 = w\<lparr>wasmCache := (wasmCache w)(CRC32 := Some m)\<rparr>
      in wasm_calculate env m data None w1)"

text \<open>The \<^verbatim>\<open>try\<close> block of \<^verbatim>\<open>crc32\<close> (lines 24 to 29), on the cached module \<open>c\<close>.\<close>

definition crc32_cached :: "backend \<Rightarrow> IDataType \<Rightarrow> nat \<Rightarrow> world \<Rightarrow> string promise \<times> world" where
  "crc32_cached env data c w =
     (case wasm_calculate env c data None w of
        (Inr hash, w') \<Rightarrow> (Fulfilled hash, w')
      | (Inl err, w') \<Rightarrow> (Rejected err, w'))"

definition crc32 :: "backend \<Rightarrow> IDataType \<Rightarrow> world \<Rightarrow> string promise \<times> world" where
  "crc32 env data w =
     (case wasmCache w CRC32 of
        None \<Rightarrow> promise_then (lockedCreate env CRC32 Crc32Wasm 4 w) (crc32_loaded env data)
      | Some c \<Rightarrow> crc32_cached env data c w)"

definition createCRC32 :: "backend \<Rightarrow> world \<Rightarrow> IHasher promise \<times> world" where
  "createCRC32 env w =
     promise_then (WASMInterface env Crc32Wasm 4 w)
       (\<lambda>m w1.
          case wasm_init env m None w1 of
            (Inl e, w2) \<Rightarrow> (Inl e, w2)
          | (Inr _, w2) \<Rightarrow>
              (Inr \<lparr>wasm_ref = m,
                    init = wasm_init env m None,
                    update = wasm_update env m,
                    digest = wasm_digest env m,
                    save = Some (wasm_save env m),
                    load = Some (wasm_load env m),
                    blockSize = 4,
                    digestSize = 4\<rparr>, w2))"

section \<open>sha224.ts\<close>

text \<open>The callback passed to \<^verbatim>\<open>then\<close> in \<^verbatim>\<open>sha224\<close> (lines 13 to 16).\<close>

definition sha224_loaded ::
  "backend \<Rightarrow> IDataType \<Rightarrow> nat \<Rightarrow> world \<Rightarrow> (error + string) \<times> world" where
  "sha224_loaded env data m w =
     (let w1 = w\<lparr>wasmCache := (wasmCache w)(SHA224 := Some m)\<rparr>
      in wasm_calculate env m data (Some 224) w1)"

text \<open>The \<^verbatim>\<open>try\<close> block of \<^verbatim>\<open>sha224\<close> (lines 19 to 24), on the cached module \<open>c\<close>.\<close>

definition sha224_cached :: "backend \<Rightarrow> IDataType \<Rightarrow> nat \<Rightarrow> world \<Rightarrow> string promise \<times> world" where
  "sha224_cached env data c w =
     (case wasm_calculate env c data (Some 224) w of
        (Inr hash, w') \<Rightarrow> (Fulfilled hash, w')
      | (Inl err, w') \<Rightarrow> (Rejected err, w'))"

definition sha224 :: "backend \<Rightarrow> IDataType \<Rightarrow> world \<Rightarrow> string promise \<times> world" where
  "sha224 env data w =
     (case wasmCache w SHA224 of
        None \<Rightarrow> promise_then (lockedCreate env SHA224 Sha256Wasm 28 w) (sha224_loaded env data)
      | Some c \<Rightarrow> sha224_cached env data c w)"

definition createSHA224 :: "backend \<Rightarrow> world \<Rightarrow> IHasher promise \<times> world" where
  "createSHA224 env w =
     promise_then (WASMInterface env Sha256Wasm 28 w)
       (\<lambda>m w1.
          case wasm_init env m (Some 224) w1 of
            (Inl e, w2) \<Rightarrow> (Inl e, w2)
          | (Inr _, w2) \<Rightarrow>
              (Inr \<lparr>wasm_ref = m,
                    init = wasm_init env m (Some 224),
                    update = wasm_update env m,
                    digest = wasm_digest env m,
                    save = None,
                    load = None,
                    blockSize = 64,
                    digestSize = 28\<rparr>, w2))"

section \<open>xxhash64.ts\<close>

text \<open>
  The statements that the \<^verbatim>\<open>then\<close> callback (lines 49 to 51) and the \<^verbatim>\<open>try\<close> block
  (lines 56 to 58) of \<^verbatim>\<open>xxhash64\<close> share: the seed is encoded into the module-level
  \<^verbatim>\<open>seedBuffer\<close>, the buffer is copied into the memory of the cached module, and the
  module calculates.
\<close>

definition xxhash64_seeded ::
  "backend \<Rightarrow> IDataType \<Rightarrow> number \<Rightarrow> number \<Rightarrow> nat \<Rightarrow> world \<Rightarrow> (error + string) \<times> world" where
  "xxhash64_seeded env data seedLow seedHigh c w =
     (case writeSeed (seedBuffer w) seedLow seedHigh of
        (Some e, buf) \<Rightarrow> (Inl e, w\<lparr>seedBuffer := buf\<rparr>)
      | (None, buf) \<Rightarrow>
          (case wasm_writeMemory c buf 0 (w\<lparr>seedBuffer := buf\<rparr>) of
             (Inl e, w1) \<Rightarrow> (Inl e, w1)
           | (Inr _, w1) \<Rightarrow> wasm_calculate env c data None w1))"

definition xxhash64_loaded ::
  "backend \<Rightarrow> IDataType \<Rightarrow> number \<Rightarrow> number \<Rightarrow> nat \<Rightarrow> world \<Rightarrow> (error + string) \<times> world" where
  "xxhash64_loaded env data seedLow seedHigh m w =
     (let w1 = w\<lparr>wasmCache := (wasmCache w)(XXHASH64 := Some m)\<rparr>
      in xxhash64_seeded env data seedLow seedHigh m w1)"

definition xxhash64_cached ::
  "backend \<Rightarrow> IDataType \<Rightarrow> number \<Rightarrow> number \<Rightarrow> nat \<Rightarrow> world \<Rightarrow> string promise \<times> world" where
  "xxhash64_cached env data seedLow seedHigh c w =
     (case xxhash64_seeded env data seedLow seedHigh c w of
        (Inr hash, w') \<Rightarrow> (Fulfilled hash, w')
      | (Inl err, w') \<Rightarrow> (Rejected err, w'))"

text \<open>A parameter with a default value: an omitted argument is \<open>None\<close>.\<close>

definition seedParam :: "number option \<Rightarrow> number" where
  "seedParam p = (case p of None \<Rightarrow> Num 0 | Some v \<Rightarrow> v)"

definition xxhash64 ::
  "backend \<Rightarrow> IDataType \<Rightarrow> number option \<Rightarrow> number option \<Rightarrow> world \<Rightarrow> string promise \<times> world" where
  "xxhash64 env data seedLow' seedHigh' w =
     (let seedLow = seedParam seedLow'; seedHigh = seedParam seedHigh' in
      case validateSeed seedLow of
        Some e \<Rightarrow> (Rejected e, w)
      | None \<Rightarrow>
          (case validateSeed seedHigh of
             Some e \<Rightarrow> (Rejected e, w)
           | None \<Rightarrow>
               (case wasmCache w XXHASH64 of
                  None \<Rightarrow>
                    promise_then (lockedCreate env XXHASH64 Xxhash64Wasm 8 w)
                      (xxhash64_loaded env data seedLow seedHigh)
                | Some c \<Rightarrow> xxhash64_cached env data seedLow seedHigh c w)))"

text \<open>The method \<^verbatim>\<open>init\<close> of the object that \<^verbatim>\<open>createXXHash64\<close> returns (lines 87 to 91).\<close>

definition xxhash64_init :: "backend \<Rightarrow> nat \<Rightarrow> bytes \<Rightarrow> world \<Rightarrow> (error + unit) \<times> world" where
  "xxhash64_init env m instanceBuffer w =
     (case wasm_writeMemory m instanceBuffer 0 w of
        (Inl e, w1) \<Rightarrow> (Inl e, w1)
      | (Inr _, w1) \<Rightarrow> wasm_init env m None w1)"

definition createXXHash64 ::
  "backend \<Rightarrow> number option \<Rightarrow> number option \<Rightarrow> world \<Rightarrow> IHasher promise \<times> world" where
  "createXXHash64 env seedLow' seedHigh' w =
     (let seedLow = seedParam seedLow'; seedHigh = seedParam seedHigh' in
      case validateSeed seedLow of
        Some e \<Rightarrow> (Rejected e, w)
      | None \<Rightarrow>
          (case validateSeed seedHigh of
             Some e \<Rightarrow> (Rejected e, w)
           | None \<Rightarrow>
               promise_then (WASMInterface env Xxhash64Wasm 8 w)
                 (\<lambda>m w1.
                    case writeSeed (replicate 8 0) seedLow seedHigh of
                      (Some e, instanceBuffer) \<Rightarrow> (Inl e, w1)
                    | (None, instanceBuffer) \<Rightarrow>
                        (case xxhash64_init env m instanceBuffer w1 of
                           (Inl e, w2) \<Rightarrow> (Inl e, w2)
                         | (Inr _, w2) \<Rightarrow>
                             (Inr \<lparr>wasm_ref = m,
                                   init = xxhash64_init env m instanceBuffer,
                                   update = wasm_update env m,
                                   digest = wasm_digest env m,
                                   save = Some (wasm_save env m),
                                   load = Some (wasm_load env m),
                                   blockSize = 32,
                                   digestSize = 8\<rparr>, w2)))))"

section \<open>Runs of the program\<close>

text \<open>The state in which the three files have just been loaded.\<close>

definition initial_world :: world where
  "initial_world =
     \<lparr>modules = (\<lambda>_. \<lparr>binary = Crc32Wasm, hashLength = 0, memory = [], calls = []\<rparr>),
      nextModule = 0,
      loaderCalls = [],
      mutex = (\<lambda>_. Empty),
      wasmCache = (\<lambda>_. None),
      seedBuffer = replicate 8 0\<rparr>"

text \<open>
  What every reachable state satisfies: a reference held by a cache or a cell addresses
  a module that exists, and \<^verbatim>\<open>seedBuffer\<close> is the 8-byte buffer it was created as.
\<close>

definition wf_world :: "world \<Rightarrow> bool" where
  "wf_world w =
     ((\<forall>a c. wasmCache w a = Some c \<longrightarrow> c < nextModule w) \<and>
      (\<forall>a m. mutex w a = Ready m \<longrightarrow> m < nextModule w) \<and>
      length (seedBuffer w) = 8)"

text \<open>
  A method call on a Hasher, and the state it leaves whether it returns or throws.
  Calling a property the object does not have throws a \<open>TypeError\<close> and changes nothing.
\<close>

datatype method_call =
    CallInit
  | CallUpdate IDataType
  | CallDigest outputType
  | CallSave
  | CallLoad bytes

fun call_method :: "IHasher \<Rightarrow> method_call \<Rightarrow> world \<Rightarrow> world" where
  "call_method h CallInit w = snd (init h w)"
| "call_method h (CallUpdate data) w = snd (update h data w)"
| "call_method h (CallDigest t) w = snd (digest h t w)"
| "call_method h CallSave w = (case save h of None \<Rightarrow> w | Some f \<Rightarrow> snd (f w))"
| "call_method h (CallLoad blob) w = (case load h of None \<Rightarrow> w | Some f \<Rightarrow> snd (f blob w))"

fun call_methods :: "IHasher \<Rightarrow> method_call list \<Rightarrow> world \<Rightarrow> world" where
  "call_methods h [] w = w"
| "call_methods h (c # cs) w = call_methods h cs (call_method h c w)"

text \<open>The seed material: both halves little-endian, the low one first.\<close>

definition seedBytes :: "number \<Rightarrow> number \<Rightarrow> bytes" where
  "seedBytes low high = le32 (ToUint32 low) @ le32 (ToUint32 high)"

text \<open>The seeds the specification admits: the integers from 0 to \<open>2 ^ 32 - 1\<close>.\<close>

definition is_uint32 :: "number \<Rightarrow> bool" where
  "is_uint32 s = (case s of Num q \<Rightarrow> q \<in> \<int> \<and> 0 \<le> q \<and> q \<le> 2 ^ 32 - 1 | _ \<Rightarrow> False)"

subsection \<open>Two backends to run the program on\<close>

text \<open>
  A backend whose loads and entry points all succeed: 16 bytes of memory, entry points
  that leave the memory as it is, the first four bytes as digest.
\<close>

definition plain_backend :: backend where
  "plain_backend =
     \<lparr>loadError = (\<lambda>_ _ _. None),
      memorySize = (\<lambda>_. 16),
      entryError = (\<lambda>_ _. None),
      entryMemory = (\<lambda>_ m. memory m),
      digestBytes = (\<lambda>m. take 4 (memory m)),
      stateBytes = (\<lambda>m. memory m)\<rparr>"

text \<open>The same backend, except that \<^verbatim>\<open>update\<close> throws on a string.\<close>

definition strict_backend :: backend where
  "strict_backend =
     plain_backend\<lparr>entryError :=
       (\<lambda>c _. case c of UpdateCall (StringData _) \<Rightarrow> Some ComputeError | _ \<Rightarrow> None)\<rparr>"

subsection \<open>What a call leaves alone\<close>

text \<open>\<open>module_frame a w w'\<close>: between the two states no module but the one at \<open>a\<close> changed.\<close>

definition module_frame :: "nat \<Rightarrow> world \<Rightarrow> world \<Rightarrow> bool" where
  "module_frame a w w' = (\<forall>b. b \<noteq> a \<longrightarrow> modules w' b = modules w b)"

text \<open>
  \<open>same_loading w w'\<close>: between the two states the Module Loader was not invoked, no
  module was created, and no cache and no cell changed.
\<close>

definition same_loading :: "world \<Rightarrow> world \<Rightarrow> bool" where
  "same_loading w w' =
     (loaderCalls w' = loaderCalls w \<and> nextModule w' = nextModule w \<and>
      mutex w' = mutex w \<and> wasmCache w' = wasmCache w)"

subsection \<open>The exported functions, indexed by the call\<close>

text \<open>
  A call of one of the three one-shot functions with its arguments, and a call of one
  of the three \<^verbatim>\<open>create\<close> functions. \<open>calculate\<close> and \<open>createHasher\<close> only dispatch to the
  source functions, so that a property of all three can be stated once.
\<close>

datatype request =
    Crc32Request IDataType
  | Sha224Request IDataType
  | Xxhash64Request IDataType "number option" "number option"

fun algorithm_of :: "request \<Rightarrow> algorithm" where
  "algorithm_of (Crc32Request _) = CRC32"
| "algorithm_of (Sha224Request _) = SHA224"
| "algorithm_of (Xxhash64Request _ _ _) = XXHASH64"

fun calculate :: "backend \<Rightarrow> request \<Rightarrow> world \<Rightarrow> string promise \<times> world" where
  "calculate env (Crc32Request data) w = crc32 env data w"
| "calculate env (Sha224Request data) w = sha224 env data w"
| "calculate env (Xxhash64Request data seedLow seedHigh) w = xxhash64 env data seedLow seedHigh w"

text \<open>The arguments the cached module's \<^verbatim>\<open>calculate\<close> is called with.\<close>

fun data_of :: "request \<Rightarrow> IDataType" where
  "data_of (Crc32Request data) = data"
| "data_of (Sha224Request data) = data"
| "data_of (Xxhash64Request data _ _) = data"

fun variant_of :: "request \<Rightarrow> nat option" where
  "variant_of (Crc32Request _) = None"
| "variant_of (Sha224Request _) = Some 224"
| "variant_of (Xxhash64Request _ _ _) = None"

datatype creation =
    CreateCRC32
  | CreateSHA224
  | CreateXXHash64 "number option" "number option"

fun createHasher :: "backend \<Rightarrow> creation \<Rightarrow> world \<Rightarrow> IHasher promise \<times> world" where
  "createHasher env CreateCRC32 w = createCRC32 env w"
| "createHasher env CreateSHA224 w = createSHA224 env w"
| "createHasher env (CreateXXHash64 seedLow seedHigh) w = createXXHash64 env seedLow seedHigh w"

text \<open>
  The parts of a one-shot call: the error it is rejected with before the cache is
  looked at (seed validation), the descriptor and hash length it loads with, and the
  synchronous block it runs on the module at \<open>c\<close> (the body of the \<^verbatim>\<open>try\<close> block, which
  is also what the \<^verbatim>\<open>then\<close> callback does after it has stored the module in the cache).
\<close>

fun early :: "request \<Rightarrow> error option" where
  "early (Crc32Request _) = None"
| "early (Sha224Request _) = None"
| "early (Xxhash64Request _ seedLow seedHigh) =
     (case validateSeed (seedParam seedLow) of
        Some e \<Rightarrow> Some e
      | None \<Rightarrow> validateSeed (seedParam seedHigh))"

fun descriptor_of :: "request \<Rightarrow> descriptor" where
  "descriptor_of (Crc32Request _) = Crc32Wasm"
| "descriptor_of (Sha224Request _) = Sha256Wasm"
| "descriptor_of (Xxhash64Request _ _ _) = Xxhash64Wasm"

fun hashLength_of :: "request \<Rightarrow> nat" where
  "hashLength_of (Crc32Request _) = 4"
| "hashLength_of (Sha224Request _) = 28"
| "hashLength_of (Xxhash64Request _ _ _) = 8"

fun block :: "backend \<Rightarrow> request \<Rightarrow> nat \<Rightarrow> world \<Rightarrow> (error + string) \<times> world" where
  "block env (Crc32Request data) c w = wasm_calculate env c data None w"
| "block env (Sha224Request data) c w = wasm_calculate env c data (Some 224) w"
| "block env (Xxhash64Request data seedLow seedHigh) c w =
     xxhash64_seeded env data (seedParam seedLow) (seedParam seedHigh) c w"

fun loaded :: "backend \<Rightarrow> request \<Rightarrow> nat \<Rightarrow> world \<Rightarrow> (error + string) \<times> world" where
  "loaded env (Crc32Request data) m w = crc32_loaded env data m w"
| "loaded env (Sha224Request data) m w = sha224_loaded env data m w"
| "loaded env (Xxhash64Request data seedLow seedHigh) m w =
     xxhash64_loaded env data (seedParam seedLow) (seedParam seedHigh) m w"

fun cached :: "backend \<Rightarrow> request \<Rightarrow> nat \<Rightarrow> world \<Rightarrow> string promise \<times> world" where
  "cached env (Crc32Request data) c w = crc32_cached env data c w"
| "cached env (Sha224Request data) c w = sha224_cached env data c w"
| "cached env (Xxhash64Request data seedLow seedHigh) c w =
     xxhash64_cached env data (seedParam seedLow) (seedParam seedHigh) c w"

text \<open>The unsigned number that a byte sequence is in little-endian order.\<close>

fun le_value :: "bytes \<Rightarrow> nat" where
  "le_value [] = 0"
| "le_value (b # bs) = unat b + 256 * le_value bs"

fun is_init :: "call \<Rightarrow> bool" where
  "is_init (InitCall _) = True"
| "is_init _ = False"

subsection \<open>Sequential runs\<close>

text \<open>
  A run of a client program in which every call settles before the next one starts:
  one-shot calls, creations of Hashers, and method calls on the Hashers created so far
  (the Hasher number \<open>i\<close>, in the order of creation). The state of a run is the state
  of the program with the Hashers the client holds.
\<close>

datatype action =
    Calculate request
  | Create creation
  | Invoke nat method_call

fun perform :: "backend \<Rightarrow> action \<Rightarrow> world \<times> IHasher list \<Rightarrow> world \<times> IHasher list" where
  "perform env (Calculate r) (w, hs) = (snd (calculate env r w), hs)"
| "perform env (Create k) (w, hs) =
     (case createHasher env k w of
        (Fulfilled h, w') \<Rightarrow> (w', hs @ [h])
      | (Rejected e, w') \<Rightarrow> (w', hs)
      | (Pending, w') \<Rightarrow> (w', hs))"
| "perform env (Invoke i mc) (w, hs) =
     (if i < length hs then (call_method (hs ! i) mc w, hs) else (w, hs))"

fun perform_all :: "backend \<Rightarrow> action list \<Rightarrow> world \<times> IHasher list \<Rightarrow> world \<times> IHasher list" where
  "perform_all env [] s = s"
| "perform_all env (a # as) s = perform_all env as (perform env a s)"

text \<open>The descriptor and the hash length a creation hands to the Module Loader.\<close>

fun loader_arguments :: "creation \<Rightarrow> descriptor \<times> nat" where
  "loader_arguments CreateCRC32 = (Crc32Wasm, 4)"
| "loader_arguments CreateSHA224 = (Sha256Wasm, 28)"
| "loader_arguments (CreateXXHash64 _ _) = (Xxhash64Wasm, 8)"

text \<open>
  \<open>private_module h\<close>: whatever method of the Hasher is called, in whatever state, it
  invokes no loader, changes no cache and no cell, and changes no module but the one
  at \<open>wasm_ref h\<close>.
\<close>

definition private_module :: "IHasher \<Rightarrow> bool" where
  "private_module h =
     (\<forall>mc w. same_loading w (call_method h mc w) \<and>
             module_frame (wasm_ref h) w (call_method h mc w) \<and>
             seedBuffer (call_method h mc w) = seedBuffer w)"

text \<open>The invariant of a run: the Hashers hold modules of their own.\<close>

definition isolated :: "world \<times> IHasher list \<Rightarrow> bool" where
  "isolated s =
     (wf_world (fst s) \<and>
      distinct (map wasm_ref (snd s)) \<and>
      (\<forall>h \<in> set (snd s).
         wasm_ref h < nextModule (fst s) \<and>
         private_module h \<and>
         (\<forall>a. wasmCache (fst s) a \<noteq> Some (wasm_ref h) \<and> mutex (fst s) a \<noteq> Ready (wasm_ref h))))"

text \<open>
  A run on the plain backend: a CRC-32 call, then a CRC-32 Hasher and a 64-bit xxHash
  Hasher, the first of them used.
\<close>

definition sample_run :: "world \<times> IHasher list" where
  "sample_run =
     perform_all plain_backend
       [Calculate (Crc32Request (StringData ''abc'')), Create CreateCRC32,
        Create (CreateXXHash64 (Some (Num 7)) None),
        Invoke 0 (CallUpdate (StringData ''abc''))]
       (initial_world, [])"

text \<open>The error a creation is rejected with before the Module Loader is invoked.\<close>

fun refused :: "creation \<Rightarrow> error option" where
  "refused CreateCRC32 = None"
| "refused CreateSHA224 = None"
| "refused (CreateXXHash64 seedLow seedHigh) =
     (case validateSeed (seedParam seedLow) of
        Some e \<Rightarrow> Some e
      | None \<Rightarrow> validateSeed (seedParam seedHigh))"

subsection \<open>Interleaved runs of one-shot calls\<close>

text \<open>
  Execution is single-threaded and cooperative: a one-shot call runs up to the point
  where it waits for \<^verbatim>\<open>lockedCreate\<close>, and its \<^verbatim>\<open>then\<close> callback runs later, after the
  promise has settled; other calls may start in between. The only suspension point is
  the Module Loader. What a caller got is recorded with the module it was computed on.
\<close>

datatype observed =
    Refused error
  | LoadFailed error
  | Computed nat "string promise"

text \<open>
  The state of an interleaved run: the state of the program; for each cell the load in
  flight, if any (descriptor, hash length and number of the loader invocation) and the
  callers enqueued on it; the callers whose \<^verbatim>\<open>lockedCreate\<close> promise has settled and whose
  callback has not run yet; and what the callers that are done have got.
\<close>

record system =
  program :: world
  inflight :: "algorithm \<Rightarrow> (descriptor \<times> nat \<times> nat) option"
  waiting :: "algorithm \<Rightarrow> (nat \<times> request) list"
  resumable :: "(nat \<times> request \<times> nat promise) list"
  settled :: "(nat \<times> request \<times> observed) list"

definition initial_system :: system where
  "initial_system =
     \<lparr>program = initial_world,
      inflight = (\<lambda>_. None),
      waiting = (\<lambda>_. []),
      resumable = [],
      settled = []\<rparr>"

text \<open>
  Modelled from the spec: \<^verbatim>\<open>lockedCreate\<close> in an interleaved run, the \<^verbatim>\<open>getOrCreate\<close> of
  section 4.1 for caller \<open>i\<close>. On an \<open>Empty\<close> cell the Module Loader is invoked and the
  cell is \<open>Loading\<close>; on a \<open>Loading\<close> cell the caller is enqueued and no second load is
  started; a \<open>Ready\<close> or \<open>Failed\<close> cell replays its outcome.
\<close>

definition lockedCreate_request :: "nat \<Rightarrow> request \<Rightarrow> system \<Rightarrow> system" where
  "lockedCreate_request i r s =
     (let w = program s; a = algorithm_of r; d = descriptor_of r; n = hashLength_of r in
      case mutex w a of
        Empty \<Rightarrow>
          s\<lparr>program := (loader_invoke d n w)\<lparr>mutex := (mutex w)(a := Loading)\<rparr>,
            inflight := (inflight s)(a := Some (d, n, length (loaderCalls w))),
            waiting := (waiting s)(a := waiting s a @ [(i, r)])\<rparr>
      | Loading \<Rightarrow> s\<lparr>waiting := (waiting s)(a := waiting s a @ [(i, r)])\<rparr>
      | Ready m \<Rightarrow> s\<lparr>resumable := resumable s @ [(i, r, Fulfilled m)]\<rparr>
      | Failed e \<Rightarrow> s\<lparr>resumable := resumable s @ [(i, r, Rejected e)]\<rparr>)"

text \<open>
  Caller \<open>i\<close> calls a one-shot function: the part of the source function that runs
  before it returns its promise (validation, the test of the cache, and either the
  \<^verbatim>\<open>try\<close> block or the call of \<^verbatim>\<open>lockedCreate\<close>).
\<close>

definition call_start :: "backend \<Rightarrow> nat \<Rightarrow> request \<Rightarrow> system \<Rightarrow> system" where
  "call_start env i r s =
     (case early r of
        Some e \<Rightarrow> s\<lparr>settled := settled s @ [(i, r, Refused e)]\<rparr>
      | None \<Rightarrow>
          (case wasmCache (program s) (algorithm_of r) of
             Some c \<Rightarrow>
               (case cached env r c (program s) of
                  (p, w') \<Rightarrow> s\<lparr>program := w', settled := settled s @ [(i, r, Computed c p)]\<rparr>)
           | None \<Rightarrow> lockedCreate_request i r s))"

text \<open>
  Modelled from the spec: the load in flight for the cell of \<open>a\<close> settles; the cell
  records the outcome and every enqueued caller is resolved with it.
\<close>

definition load_settles :: "backend \<Rightarrow> algorithm \<Rightarrow> system \<Rightarrow> system" where
  "load_settles env a s =
     (case (mutex (program s) a, inflight s a) of
        (Loading, Some (d, n, k)) \<Rightarrow>
          (case loader_settle env d n k (program s) of
             (q, w') \<Rightarrow>
               s\<lparr>program :=
                   w'\<lparr>mutex := (mutex w')(a :=
                        (case q of Fulfilled m \<Rightarrow> Ready m | Rejected e \<Rightarrow> Failed e | Pending \<Rightarrow> Loading))\<rparr>,
                 inflight := (inflight s)(a := None),
                 waiting := (waiting s)(a := []),
                 resumable := resumable s @ map (\<lambda>(i, r). (i, r, q)) (waiting s a)\<rparr>)
      | _ \<Rightarrow> s)"

text \<open>
  The callback of caller \<open>i\<close> runs (the first one pending for \<open>i\<close>): on a module it is the
  \<^verbatim>\<open>then\<close> callback of the source function; a rejection passes through.
\<close>

definition resume :: "backend \<Rightarrow> nat \<Rightarrow> system \<Rightarrow> system" where
  "resume env i s =
     (case find (\<lambda>(j, r, q). j = i) (resumable s) of
        None \<Rightarrow> s
      | Some (j, r, q) \<Rightarrow>
          (case q of
             Fulfilled m \<Rightarrow>
               (case loaded env r m (program s) of
                  (x, w') \<Rightarrow>
                    s\<lparr>program := w',
                      resumable := remove1 (j, r, q) (resumable s),
                      settled := settled s @
                        [(i, r, Computed m (case x of Inl e \<Rightarrow> Rejected e | Inr h \<Rightarrow> Fulfilled h))]\<rparr>)
           | Rejected e \<Rightarrow>
               s\<lparr>resumable := remove1 (j, r, q) (resumable s),
                 settled := settled s @ [(i, r, LoadFailed e)]\<rparr>
           | Pending \<Rightarrow> s))"

datatype event =
    Call nat request
  | LoadSettles algorithm
  | Resume nat

fun step :: "backend \<Rightarrow> event \<Rightarrow> system \<Rightarrow> system" where
  "step env (Call i r) s = call_start env i r s"
| "step env (LoadSettles a) s = load_settles env a s"
| "step env (Resume i) s = resume env i s"

fun run :: "backend \<Rightarrow> event list \<Rightarrow> system \<Rightarrow> system" where
  "run env [] s = s"
| "run env (e # es) s = run env es (step env e s)"

text \<open>The arguments with which the one-shot function of an algorithm loads its module.\<close>

fun loader_pair :: "algorithm \<Rightarrow> descriptor \<times> nat" where
  "loader_pair CRC32 = (Crc32Wasm, 4)"
| "loader_pair SHA224 = (Sha256Wasm, 28)"
| "loader_pair XXHASH64 = (Xxhash64Wasm, 8)"

text \<open>The number of Module Loader invocations made for an algorithm.\<close>

definition loads :: "algorithm \<Rightarrow> world \<Rightarrow> nat" where
  "loads a w = length (filter (\<lambda>c. c = loader_pair a) (loaderCalls w))"

text \<open>A call of algorithm \<open>a\<close> that passes validation, so that it needs the module.\<close>

fun needs_module :: "algorithm \<Rightarrow> event \<Rightarrow> bool" where
  "needs_module a (Call i r) = (algorithm_of r = a \<and> early r = None)"
| "needs_module a (LoadSettles _) = False"
| "needs_module a (Resume _) = False"

text \<open>
  \<open>N\<close> concurrent first-use calls: the callers 0 to \<open>N - 1\<close> call before the load
  settles, then the load settles, then the callbacks run.
\<close>

fun calls_from :: "nat \<Rightarrow> request list \<Rightarrow> event list" where
  "calls_from i [] = []"
| "calls_from i (r # rs) = Call i r # calls_from (Suc i) rs"

definition concurrent_first_use :: "algorithm \<Rightarrow> request list \<Rightarrow> event list" where
  "concurrent_first_use a rs =
     calls_from 0 rs @ [LoadSettles a] @ map Resume [0..<length rs]"

text \<open>What a caller got agrees with the cell of its algorithm.\<close>

fun agrees :: "cell \<Rightarrow> observed \<Rightarrow> bool" where
  "agrees c (Refused e) = True"
| "agrees (Ready m) (Computed m' p) = (m' = m)"
| "agrees (Failed e) (LoadFailed e') = (e' = e)"
| "agrees _ _ = False"

text \<open>
  The invariant of an interleaved run, for the cell of algorithm \<open>a\<close>: the loader was
  invoked for \<open>a\<close> once if the cell has left \<open>Empty\<close> and never otherwise; the cache is
  empty or holds the module of the \<open>Ready\<close> cell; callers wait only on a \<open>Loading\<close> cell;
  and what the callers of \<open>a\<close> were resolved with, or got, is the outcome in the cell.
\<close>

definition single_flight :: "algorithm \<Rightarrow> system \<Rightarrow> bool" where
  "single_flight a s =
     ((\<forall>b i r. (i, r) \<in> set (waiting s b) \<longrightarrow> algorithm_of r = b) \<and>
      (mutex (program s) a = Empty \<longrightarrow> loads a (program s) = 0) \<and>
      (mutex (program s) a \<noteq> Empty \<longrightarrow> loads a (program s) = 1) \<and>
      (wasmCache (program s) a = None \<or>
         (\<exists>m. mutex (program s) a = Ready m \<and> wasmCache (program s) a = Some m)) \<and>
      (mutex (program s) a \<noteq> Loading \<longrightarrow> waiting s a = []) \<and>
      (\<forall>i r q. (i, r, q) \<in> set (resumable s) \<and> algorithm_of r = a \<longrightarrow>
         (\<exists>m. q = Fulfilled m \<and> mutex (program s) a = Ready m) \<or>
         (\<exists>e. q = Rejected e \<and> mutex (program s) a = Failed e)) \<and>
      (\<forall>i r ob. (i, r, ob) \<in> set (settled s) \<and> algorithm_of r = a \<longrightarrow>
         agrees (mutex (program s) a) ob))"

text \<open>
  The seed bytes a one-shot call writes to the module before it calculates (none for
  CRC-32 and SHA-224), the memory on which the \<^verbatim>\<open>init\<close> of its calculation then runs,
  given the memory before the call, and whether the write can take place: the seed
  buffer is the 8-byte buffer and the memory has room for it.
\<close>

fun seed_of :: "request \<Rightarrow> bytes option" where
  "seed_of (Crc32Request _) = None"
| "seed_of (Sha224Request _) = None"
| "seed_of (Xxhash64Request _ seedLow seedHigh) =
     Some (seedBytes (seedParam seedLow) (seedParam seedHigh))"

definition memory_at_init :: "request \<Rightarrow> bytes \<Rightarrow> bytes" where
  "memory_at_init r mem = (case seed_of r of None \<Rightarrow> mem | Some s \<Rightarrow> s @ drop 8 mem)"

definition writable :: "request \<Rightarrow> world \<Rightarrow> nat \<Rightarrow> bool" where
  "writable r w c =
     (case seed_of r of
        None \<Rightarrow> True
      | Some s \<Rightarrow> length (seedBuffer w) = 8 \<and> 8 \<le> length (memory (modules w c)))"

text \<open>The state after one call of each one-shot function on the plain backend.\<close>

definition cached_world :: world where
  "cached_world =
     snd (calculate plain_backend (Xxhash64Request (StringData ''abc'') (Some (Num 1)) (Some (Num 2)))
       (snd (calculate plain_backend (Sha224Request (StringData ''abc''))
         (snd (calculate plain_backend (Crc32Request (StringData ''abc'')) initial_world)))))"

text \<open>The plain backend with a Module Loader that always fails.\<close>

definition broken_backend :: backend where
  "broken_backend = plain_backend\<lparr>loadError := (\<lambda>_ _ _. Some LoadError)\<rparr>"

section \<open>Seed validation\<close>

lemma isInteger_iff: "isInteger s = (\<exists>q. s = Num q \<and> q \<in> \<int>)"
proof (cases s)
  case (Num q)
  have "(rat_of_int \<lfloor>q\<rfloor> = q) = (q \<in> \<int>)"
    by (metis Ints_of_int floor_of_int Ints_cases)
  then show ?thesis using Num by simp
qed auto

lemma validateSeed_None_iff: "(validateSeed s = None) = is_uint32 s"
  by (cases s) (auto simp: validateSeed_def is_uint32_def isInteger_iff)

lemma validateSeed_Some:
  "validateSeed s = Some e \<Longrightarrow>
   e = Error ''Seed must be given as two valid 32-bit long unsigned integer (lo + high).''"
  by (auto simp: validateSeed_def split: if_splits)

text \<open>
  C3. When a seed component handed to \<^verbatim>\<open>xxhash64\<close> or \<^verbatim>\<open>createXXHash64\<close> is not an
  integer of the range from 0 to \<open>2 ^ 32 - 1\<close>, the promise is rejected with the
  validation error and the state is the one before the call: no Module Loader
  invocation, no module created, written to or invoked.
\<close>

theorem seed_rejected_before_backend:
  assumes "\<not> is_uint32 (seedParam seedLow) \<or> \<not> is_uint32 (seedParam seedHigh)"
  shows "(\<exists>e. validateSeed (seedParam seedLow) = Some e \<or> validateSeed (seedParam seedHigh) = Some e) \<and>
         xxhash64 env data seedLow seedHigh w =
           (Rejected (Error ''Seed must be given as two valid 32-bit long unsigned integer (lo + high).''), w) \<and>
         createXXHash64 env seedLow seedHigh w =
           (Rejected (Error ''Seed must be given as two valid 32-bit long unsigned integer (lo + high).''), w)"
  using assms
  by (auto simp: xxhash64_def createXXHash64_def Let_def validateSeed_None_iff[symmetric]
      dest: validateSeed_Some split: option.splits)

theorem seed_rejected_before_backend_witness:
  "\<not> is_uint32 (Num (- 1)) \<and> \<not> is_uint32 (Num (2 ^ 32)) \<and> \<not> is_uint32 (Num (3 / 2)) \<and>
   xxhash64 plain_backend (StringData ''abc'') (Some (Num (- 1))) None initial_world =
     (Rejected (Error ''Seed must be given as two valid 32-bit long unsigned integer (lo + high).''),
      initial_world) \<and>
   xxhash64 plain_backend (StringData ''abc'') None (Some (Num (2 ^ 32))) initial_world =
     (Rejected (Error ''Seed must be given as two valid 32-bit long unsigned integer (lo + high).''),
      initial_world) \<and>
   createXXHash64 plain_backend (Some (Num (3 / 2))) (Some (Num 0)) initial_world =
     (Rejected (Error ''Seed must be given as two valid 32-bit long unsigned integer (lo + high).''),
      initial_world)"
proof -
  have n1: "\<not> is_uint32 (Num (- 1))" and n2: "\<not> is_uint32 (Num (2 ^ 32))"
    and n3: "\<not> is_uint32 (Num (3 / 2))"
    by (simp_all add: is_uint32_def)
  show ?thesis
    using n1 n2 n3
      seed_rejected_before_backend [of "Some (Num (- 1))" None plain_backend "StringData ''abc''" initial_world]
      seed_rejected_before_backend [of None "Some (Num (2 ^ 32))" plain_backend "StringData ''abc''" initial_world]
      seed_rejected_before_backend [of "Some (Num (3 / 2))" "Some (Num 0)" plain_backend "StringData ''abc''" initial_world]
    by (simp add: seedParam_def)
qed

text \<open>
  C9. Leaving the seed parameters out of \<^verbatim>\<open>xxhash64\<close> or \<^verbatim>\<open>createXXHash64\<close> is the same
  as passing 0 for them: the same outcome and the same state, for every input, every
  backend and every state.
\<close>

theorem omitted_seed_is_zero:
  "xxhash64 env data None None w = xxhash64 env data (Some (Num 0)) (Some (Num 0)) w \<and>
   xxhash64 env data seedLow None w = xxhash64 env data seedLow (Some (Num 0)) w \<and>
   createXXHash64 env None None w = createXXHash64 env (Some (Num 0)) (Some (Num 0)) w \<and>
   createXXHash64 env seedLow None w = createXXHash64 env seedLow (Some (Num 0)) w"
  by (simp add: xxhash64_def createXXHash64_def seedParam_def)

section \<open>Effects of the wrapper operations\<close>

lemma module_frame_refl: "module_frame a w w"
  by (simp add: module_frame_def)

lemma module_frame_trans: "module_frame a w w1 \<Longrightarrow> module_frame a w1 w2 \<Longrightarrow> module_frame a w w2"
  by (simp add: module_frame_def)

lemma same_loading_refl: "same_loading w w"
  by (simp add: same_loading_def)

lemma same_loading_trans: "same_loading w w1 \<Longrightarrow> same_loading w1 w2 \<Longrightarrow> same_loading w w2"
  by (simp add: same_loading_def)

lemma run_entry_effect:
  assumes "run_entry env a c w = (r, w')"
  shows "same_loading w w'" and "seedBuffer w' = seedBuffer w" and "module_frame a w w'"
    and "calls (modules w' a) = calls (modules w a) @ [(c, memory (modules w a))]"
    and "memory (modules w' a) = entryMemory env c (modules w a)"
    and "r = entryError env c (modules w a)"
  using assms by (auto simp: run_entry_def entry_def same_loading_def module_frame_def)

lemma wasm_init_effect:
  assumes "wasm_init env a v w = (r, w')"
  shows "same_loading w w'" and "seedBuffer w' = seedBuffer w" and "module_frame a w w'"
    and "calls (modules w' a) = calls (modules w a) @ [(InitCall v, memory (modules w a))]"
proof -
  obtain e where "run_entry env a (InitCall v) w = (e, w')"
    using assms by (auto simp: wasm_init_def split: prod.splits option.splits)
  from run_entry_effect[OF this]
  show "same_loading w w'" and "seedBuffer w' = seedBuffer w" and "module_frame a w w'"
    and "calls (modules w' a) = calls (modules w a) @ [(InitCall v, memory (modules w a))]"
    by auto
qed

lemma wasm_update_effect:
  assumes "wasm_update env a d w = (r, w')"
  shows "same_loading w w'" and "seedBuffer w' = seedBuffer w" and "module_frame a w w'"
    and "calls (modules w' a) = calls (modules w a) @ [(UpdateCall d, memory (modules w a))]"
proof -
  obtain e where "run_entry env a (UpdateCall d) w = (e, w')"
    using assms by (auto simp: wasm_update_def split: prod.splits option.splits)
  from run_entry_effect[OF this]
  show "same_loading w w'" and "seedBuffer w' = seedBuffer w" and "module_frame a w w'"
    and "calls (modules w' a) = calls (modules w a) @ [(UpdateCall d, memory (modules w a))]"
    by auto
qed

lemma wasm_digest_effect:
  assumes "wasm_digest env a t w = (r, w')"
  shows "same_loading w w'" and "seedBuffer w' = seedBuffer w" and "module_frame a w w'"
    and "calls (modules w' a) = calls (modules w a) @ [(DigestCall t, memory (modules w a))]"
proof -
  obtain e where "run_entry env a (DigestCall t) w = (e, w')"
    using assms by (auto simp: wasm_digest_def split: prod.splits option.splits)
  from run_entry_effect[OF this]
  show "same_loading w w'" and "seedBuffer w' = seedBuffer w" and "module_frame a w w'"
    and "calls (modules w' a) = calls (modules w a) @ [(DigestCall t, memory (modules w a))]"
    by auto
qed

lemma wasm_save_effect:
  assumes "wasm_save env a w = (r, w')"
  shows "same_loading w w'" and "seedBuffer w' = seedBuffer w" and "module_frame a w w'"
    and "calls (modules w' a) = calls (modules w a) @ [(SaveCall, memory (modules w a))]"
proof -
  obtain e where "run_entry env a SaveCall w = (e, w')"
    using assms by (auto simp: wasm_save_def split: prod.splits option.splits)
  from run_entry_effect[OF this]
  show "same_loading w w'" and "seedBuffer w' = seedBuffer w" and "module_frame a w w'"
    and "calls (modules w' a) = calls (modules w a) @ [(SaveCall, memory (modules w a))]"
    by auto
qed

lemma wasm_load_effect:
  assumes "wasm_load env a b w = (r, w')"
  shows "same_loading w w'" and "seedBuffer w' = seedBuffer w" and "module_frame a w w'"
    and "calls (modules w' a) = calls (modules w a) @ [(LoadCall b, memory (modules w a))]"
proof -
  obtain e where "run_entry env a (LoadCall b) w = (e, w')"
    using assms by (auto simp: wasm_load_def split: prod.splits option.splits)
  from run_entry_effect[OF this]
  show "same_loading w w'" and "seedBuffer w' = seedBuffer w" and "module_frame a w w'"
    and "calls (modules w' a) = calls (modules w a) @ [(LoadCall b, memory (modules w a))]"
    by auto
qed

lemma wasm_writeMemory_effect:
  assumes "wasm_writeMemory a bs off w = (r, w')"
  shows "same_loading w w'" and "seedBuffer w' = seedBuffer w" and "module_frame a w w'"
    and "calls (modules w' a) = calls (modules w a)"
    and "r = Inr () \<Longrightarrow> memory (modules w' a) =
           take off (memory (modules w a)) @ bs @ drop (off + length bs) (memory (modules w a))"
    and "r \<noteq> Inr () \<Longrightarrow> w' = w"
    and "(r = Inr ()) = (off + length bs \<le> length (memory (modules w a)))"
  using assms
  by (auto simp: wasm_writeMemory_def Let_def same_loading_def module_frame_def split: if_splits)

lemma wasm_calculate_effect:
  assumes "wasm_calculate env a d v w = (r, w')"
  shows "same_loading w w'" and "seedBuffer w' = seedBuffer w" and "module_frame a w w'"
    and "\<exists>rest. calls (modules w' a) = calls (modules w a) @ (InitCall v, memory (modules w a)) # rest"
proof -
  obtain r1 w1 where i: "wasm_init env a v w = (r1, w1)" by (cases "wasm_init env a v w")
  obtain r2 w2 where u: "wasm_update env a d w1 = (r2, w2)" by (cases "wasm_update env a d w1")
  obtain r3 w3 where g: "wasm_digest env a Hex w2 = (r3, w3)" by (cases "wasm_digest env a Hex w2")
  note I = wasm_init_effect[OF i] and U = wasm_update_effect[OF u] and G = wasm_digest_effect[OF g]
  have w': "w' = w1 \<or> w' = w2 \<or> w' = w3"
    using assms i u g by (auto simp: wasm_calculate_def split: sum.splits)
  show "same_loading w w'" using w' I(1) U(1) G(1) by (auto intro: same_loading_trans)
  show "seedBuffer w' = seedBuffer w" using w' I(2) U(2) G(2) by auto
  show "module_frame a w w'" using w' I(3) U(3) G(3) by (auto intro: module_frame_trans)
  show "\<exists>rest. calls (modules w' a) = calls (modules w a) @ (InitCall v, memory (modules w a)) # rest"
    using w' I(4) U(4) G(4) by auto
qed

section \<open>Effects of the Module Loader and of single-flight creation\<close>

lemma WASMInterface_Fulfilled:
  assumes "WASMInterface env d n w = (Fulfilled m, w')"
  shows "m = nextModule w" and "nextModule w' = Suc (nextModule w)"
    and "loaderCalls w' = loaderCalls w @ [(d, n)]"
    and "mutex w' = mutex w" and "wasmCache w' = wasmCache w" and "seedBuffer w' = seedBuffer w"
    and "module_frame m w w'"
    and "modules w' m = \<lparr>binary = d, hashLength = n, memory = replicate (memorySize env d) 0, calls = []\<rparr>"
    and "loadError env d n (length (loaderCalls w)) = None"
  using assms
  by (auto simp: WASMInterface_def loader_settle_def loader_invoke_def module_frame_def
      split: option.splits)

lemma WASMInterface_Rejected:
  assumes "WASMInterface env d n w = (Rejected e, w')"
  shows "w' = w\<lparr>loaderCalls := loaderCalls w @ [(d, n)]\<rparr>"
    and "loadError env d n (length (loaderCalls w)) = Some e"
  using assms
  by (auto simp: WASMInterface_def loader_settle_def loader_invoke_def split: option.splits)

lemma WASMInterface_not_Pending: "fst (WASMInterface env d n w) \<noteq> Pending"
  by (auto simp: WASMInterface_def loader_settle_def split: option.splits)

lemma lockedCreate_Fulfilled:
  assumes "lockedCreate env a d n w = (Fulfilled m, w')"
  shows "mutex w' a = Ready m" and "wasmCache w' = wasmCache w" and "seedBuffer w' = seedBuffer w"
    and "(mutex w a = Ready m \<and> w' = w) \<or>
         (mutex w a = Empty \<and> m = nextModule w \<and> nextModule w' = Suc (nextModule w) \<and>
          loaderCalls w' = loaderCalls w @ [(d, n)] \<and> mutex w' = (mutex w)(a := Ready m))"
    and "\<And>b. b \<noteq> a \<Longrightarrow> mutex w' b = mutex w b"
proof -
  show "mutex w' a = Ready m" and "wasmCache w' = wasmCache w" and "seedBuffer w' = seedBuffer w"
    and "(mutex w a = Ready m \<and> w' = w) \<or>
         (mutex w a = Empty \<and> m = nextModule w \<and> nextModule w' = Suc (nextModule w) \<and>
          loaderCalls w' = loaderCalls w @ [(d, n)] \<and> mutex w' = (mutex w)(a := Ready m))"
    and "\<And>b. b \<noteq> a \<Longrightarrow> mutex w' b = mutex w b"
    using assms
    by (auto simp: lockedCreate_def split: cell.splits prod.splits promise.splits
        dest: WASMInterface_Fulfilled)
qed

lemma lockedCreate_Rejected:
  assumes "lockedCreate env a d n w = (Rejected e, w')"
  shows "mutex w' a = Failed e" and "wasmCache w' = wasmCache w" and "seedBuffer w' = seedBuffer w"
    and "modules w' = modules w" and "nextModule w' = nextModule w"
    and "(mutex w a = Failed e \<and> w' = w) \<or>
         (mutex w a = Empty \<and> loaderCalls w' = loaderCalls w @ [(d, n)] \<and>
          loadError env d n (length (loaderCalls w)) = Some e)"
  using assms
  by (auto simp: lockedCreate_def split: cell.splits prod.splits promise.splits
      dest: WASMInterface_Rejected)

lemma lockedCreate_Pending:
  assumes "lockedCreate env a d n w = (Pending, w')"
  shows "mutex w a = Loading" and "w' = w"
  using assms WASMInterface_not_Pending[of env d n w]
  by (auto simp: lockedCreate_def split: cell.splits prod.splits promise.splits)

lemma wasm_calculate_Inr:
  assumes "wasm_calculate env a d v w = (Inr h, w')"
  shows "map fst (calls (modules w' a)) =
           map fst (calls (modules w a)) @ [InitCall v, UpdateCall d, DigestCall Hex]"
proof -
  obtain r1 w1 where i: "wasm_init env a v w = (r1, w1)" by (cases "wasm_init env a v w")
  obtain r2 w2 where u: "wasm_update env a d w1 = (r2, w2)" by (cases "wasm_update env a d w1")
  obtain r3 w3 where g: "wasm_digest env a Hex w2 = (r3, w3)" by (cases "wasm_digest env a Hex w2")
  have "w' = w3"
    using assms i u g by (auto simp: wasm_calculate_def split: sum.splits)
  then show ?thesis
    using wasm_init_effect(4)[OF i] wasm_update_effect(4)[OF u] wasm_digest_effect(4)[OF g]
    by simp
qed

section \<open>Seed encoding\<close>

lemma length_le32: "length (le32 v) = 4"
  by (simp add: le32_def)

lemma length_seedBytes: "length (seedBytes low high) = 8"
  by (simp add: seedBytes_def length_le32)

lemma writeSeed_8: "length arr = 8 \<Longrightarrow> writeSeed arr low high = (None, seedBytes low high)"
  by (simp add: writeSeed_def setUint32_def seedBytes_def length_le32)

lemma writeSeed_length: "length (snd (writeSeed arr low high)) = length arr"
  by (auto simp: writeSeed_def setUint32_def length_le32 split: sum.splits if_splits)

section \<open>Effects of the one-shot functions\<close>

lemma xxhash64_seeded_effect:
  assumes "xxhash64_seeded env data lo hi c w = (r, w')"
  shows "same_loading w w'" and "module_frame c w w'"
    and "length (seedBuffer w') = length (seedBuffer w)"
    and "length (seedBuffer w) = 8 \<Longrightarrow> seedBuffer w' = seedBytes lo hi"
    and "length (seedBuffer w) = 8 \<Longrightarrow> 8 \<le> length (memory (modules w c)) \<Longrightarrow>
         \<exists>rest. calls (modules w' c) =
           calls (modules w c) @ (InitCall None, seedBytes lo hi @ drop 8 (memory (modules w c))) # rest"
    and "\<And>h. r = Inr h \<Longrightarrow>
         map fst (calls (modules w' c)) =
           map fst (calls (modules w c)) @ [InitCall None, UpdateCall data, DigestCall Hex]"
proof -
  obtain e buf where ws: "writeSeed (seedBuffer w) lo hi = (e, buf)"
    by (cases "writeSeed (seedBuffer w) lo hi")
  define w0 where "w0 = w\<lparr>seedBuffer := buf\<rparr>"
  obtain r1 w1 where wm: "wasm_writeMemory c buf 0 w0 = (r1, w1)"
    by (cases "wasm_writeMemory c buf 0 w0")
  obtain r2 w2 where ca: "wasm_calculate env c data None w1 = (r2, w2)"
    by (cases "wasm_calculate env c data None w1")
  note M = wasm_writeMemory_effect[OF wm] and C = wasm_calculate_effect[OF ca]
  have buflen: "length buf = length (seedBuffer w)"
    using writeSeed_length[of "seedBuffer w" lo hi] ws by simp
  have w0: "same_loading w w0" "module_frame c w w0" "seedBuffer w0 = buf" "modules w0 = modules w"
    by (simp_all add: w0_def same_loading_def module_frame_def)
  have cases: "(e \<noteq> None \<and> w' = w0 \<and> (\<exists>x. r = Inl x)) \<or>
               (e = None \<and> r1 \<noteq> Inr () \<and> w' = w1 \<and> (\<exists>x. r = Inl x)) \<or>
               (e = None \<and> r1 = Inr () \<and> w' = w2 \<and> r = r2)"
    using assms ws wm ca
    by (auto simp: xxhash64_seeded_def w0_def split: option.splits sum.splits)
  show "same_loading w w'"
    using cases w0(1) M(1) C(1) by (auto intro: same_loading_trans)
  show "module_frame c w w'"
    using cases w0(2) M(3) C(3) by (auto intro: module_frame_trans)
  show "length (seedBuffer w') = length (seedBuffer w)"
    using cases w0(3) M(2) C(2) buflen by auto
  show "seedBuffer w' = seedBytes lo hi" if "length (seedBuffer w) = 8"
    using cases w0(3) M(2) C(2) ws writeSeed_8[OF that, of lo hi] by auto
  show "\<exists>rest. calls (modules w' c) =
           calls (modules w c) @ (InitCall None, seedBytes lo hi @ drop 8 (memory (modules w c))) # rest"
    if l: "length (seedBuffer w) = 8" and m: "8 \<le> length (memory (modules w c))"
  proof -
    have e: "e = None" and buf: "buf = seedBytes lo hi"
      using ws writeSeed_8[OF l, of lo hi] by auto
    have r1: "r1 = Inr ()"
      using M(7) m buflen l w0(4) by simp
    then have w': "w' = w2" using cases e by auto
    have "memory (modules w1 c) = seedBytes lo hi @ drop 8 (memory (modules w c))"
      using M(5)[OF r1] buf w0(4) length_seedBytes[of lo hi] by simp
    then show ?thesis
      using C(4) M(4) w0(4) w' by auto
  qed
  show "map fst (calls (modules w' c)) =
           map fst (calls (modules w c)) @ [InitCall None, UpdateCall data, DigestCall Hex]"
    if "r = Inr h" for h
  proof -
    have w': "w' = w2" "r2 = Inr h" using cases that by auto
    have "map fst (calls (modules w2 c)) =
           map fst (calls (modules w1 c)) @ [InitCall None, UpdateCall data, DigestCall Hex]"
      using wasm_calculate_Inr[OF ca[unfolded w'(2)]] .
    then show ?thesis using M(4) w0(4) w' by simp
  qed
qed

section \<open>Calls that find the module cached\<close>

lemma crc32_cached_effect:
  assumes "crc32_cached env data c w = (p, w')"
  shows "p \<noteq> Pending" and "same_loading w w'" and "module_frame c w w'"
    and "seedBuffer w' = seedBuffer w"
    and "\<And>h. p = Fulfilled h \<Longrightarrow>
         map fst (calls (modules w' c)) =
           map fst (calls (modules w c)) @ [InitCall None, UpdateCall data, DigestCall Hex]"
proof -
  obtain r where c: "wasm_calculate env c data None w = (r, w')"
    and p: "p = (case r of Inr h \<Rightarrow> Fulfilled h | Inl e \<Rightarrow> Rejected e)"
    using assms by (auto simp: crc32_cached_def split: prod.splits sum.splits)
  show "p \<noteq> Pending" using p by (auto split: sum.splits)
  show "same_loading w w'" "module_frame c w w'" "seedBuffer w' = seedBuffer w"
    using wasm_calculate_effect[OF c] by auto
  show "map fst (calls (modules w' c)) =
           map fst (calls (modules w c)) @ [InitCall None, UpdateCall data, DigestCall Hex]"
    if "p = Fulfilled h" for h
    using that p c wasm_calculate_Inr[of env c data None w h w'] by (auto split: sum.splits)
qed

lemma sha224_cached_effect:
  assumes "sha224_cached env data c w = (p, w')"
  shows "p \<noteq> Pending" and "same_loading w w'" and "module_frame c w w'"
    and "seedBuffer w' = seedBuffer w"
    and "\<And>h. p = Fulfilled h \<Longrightarrow>
         map fst (calls (modules w' c)) =
           map fst (calls (modules w c)) @ [InitCall (Some 224), UpdateCall data, DigestCall Hex]"
proof -
  obtain r where c: "wasm_calculate env c data (Some 224) w = (r, w')"
    and p: "p = (case r of Inr h \<Rightarrow> Fulfilled h | Inl e \<Rightarrow> Rejected e)"
    using assms by (auto simp: sha224_cached_def split: prod.splits sum.splits)
  show "p \<noteq> Pending" using p by (auto split: sum.splits)
  show "same_loading w w'" "module_frame c w w'" "seedBuffer w' = seedBuffer w"
    using wasm_calculate_effect[OF c] by auto
  show "map fst (calls (modules w' c)) =
           map fst (calls (modules w c)) @ [InitCall (Some 224), UpdateCall data, DigestCall Hex]"
    if "p = Fulfilled h" for h
    using that p c wasm_calculate_Inr[of env c data "Some 224" w h w'] by (auto split: sum.splits)
qed

lemma xxhash64_cached_effect:
  assumes "xxhash64_cached env data lo hi c w = (p, w')"
  shows "p \<noteq> Pending" and "same_loading w w'" and "module_frame c w w'"
    and "\<And>h. p = Fulfilled h \<Longrightarrow>
         map fst (calls (modules w' c)) =
           map fst (calls (modules w c)) @ [InitCall None, UpdateCall data, DigestCall Hex]"
proof -
  obtain r where c: "xxhash64_seeded env data lo hi c w = (r, w')"
    and p: "p = (case r of Inr h \<Rightarrow> Fulfilled h | Inl e \<Rightarrow> Rejected e)"
    using assms by (auto simp: xxhash64_cached_def split: prod.splits sum.splits)
  show "p \<noteq> Pending" using p by (auto split: sum.splits)
  show "same_loading w w'" "module_frame c w w'"
    using xxhash64_seeded_effect[OF c] by auto
  show "map fst (calls (modules w' c)) =
           map fst (calls (modules w c)) @ [InitCall None, UpdateCall data, DigestCall Hex]"
    if "p = Fulfilled h" for h
    using that p xxhash64_seeded_effect(6)[OF c] by (auto split: sum.splits)
qed

lemma calculate_cached:
  assumes "wasmCache w (algorithm_of r) = Some c" and "calculate env r w = (p, w')"
  shows "p \<noteq> Pending" and "same_loading w w'" and "module_frame c w w'"
    and "\<And>h. p = Fulfilled h \<Longrightarrow>
         map fst (calls (modules w' c)) =
           map fst (calls (modules w c)) @ [InitCall (variant_of r), UpdateCall (data_of r), DigestCall Hex]"
proof -
  have "p \<noteq> Pending \<and> same_loading w w' \<and> module_frame c w w' \<and>
    (\<forall>h. p = Fulfilled h \<longrightarrow>
         map fst (calls (modules w' c)) =
           map fst (calls (modules w c)) @ [InitCall (variant_of r), UpdateCall (data_of r), DigestCall Hex])"
  proof (cases r)
    case (Crc32Request data)
    then have "crc32_cached env data c w = (p, w')"
      using assms by (simp add: crc32_def)
    from crc32_cached_effect[OF this] show ?thesis using Crc32Request by simp
  next
    case (Sha224Request data)
    then have "sha224_cached env data c w = (p, w')"
      using assms by (simp add: sha224_def)
    from sha224_cached_effect[OF this] show ?thesis using Sha224Request by simp
  next
    case (Xxhash64Request data lo hi)
    then have x: "xxhash64 env data lo hi w = (p, w')" using assms by simp
    show ?thesis
    proof (cases "validateSeed (seedParam lo) = None \<and> validateSeed (seedParam hi) = None")
      case True
      then have "xxhash64_cached env data (seedParam lo) (seedParam hi) c w = (p, w')"
        using x assms(1) Xxhash64Request by (simp add: xxhash64_def)
      from xxhash64_cached_effect[OF this] show ?thesis using Xxhash64Request by simp
    next
      case False
      then have "w' = w \<and> (\<exists>e. p = Rejected e)"
        using x by (auto simp: xxhash64_def Let_def split: option.splits)
      then show ?thesis by (auto simp: same_loading_refl module_frame_refl)
    qed
  qed
  then show "p \<noteq> Pending" and "same_loading w w'" and "module_frame c w w'"
    and "\<And>h. p = Fulfilled h \<Longrightarrow>
         map fst (calls (modules w' c)) =
           map fst (calls (modules w c)) @ [InitCall (variant_of r), UpdateCall (data_of r), DigestCall Hex]"
    by auto
qed

section \<open>Running the program on the two backends\<close>

lemmas run_defs =
  initial_world_def plain_backend_def strict_backend_def
  crc32_def crc32_loaded_def crc32_cached_def sha224_def sha224_loaded_def sha224_cached_def
  xxhash64_def xxhash64_loaded_def xxhash64_cached_def xxhash64_seeded_def xxhash64_init_def
  createCRC32_def createSHA224_def createXXHash64_def
  promise_then_def lockedCreate_def WASMInterface_def loader_settle_def loader_invoke_def
  wasm_calculate_def wasm_init_def wasm_update_def wasm_digest_def wasm_save_def wasm_load_def
  wasm_writeMemory_def run_entry_def entry_def seedParam_def

lemma replicate_16: "replicate 16 x = [x, x, x, x, x, x, x, x, x, x, x, x, x, x, x, x]"
  by (simp add: eval_nat_numeral)

lemma replicate_8: "replicate 8 x = [x, x, x, x, x, x, x, x]"
  by (simp add: eval_nat_numeral)

lemmas seed_defs = validateSeed_def writeSeed_def setUint32_def le32_def seedBytes_def

section \<open>The shape the three one-shot functions share\<close>

lemma loaded_fun:
  "loaded env (Crc32Request data) = crc32_loaded env data"
  "loaded env (Sha224Request data) = sha224_loaded env data"
  "loaded env (Xxhash64Request data seedLow seedHigh) =
     xxhash64_loaded env data (seedParam seedLow) (seedParam seedHigh)"
  by (intro ext, simp)+

lemma calculate_shape:
  "calculate env r w =
     (case early r of
        Some e \<Rightarrow> (Rejected e, w)
      | None \<Rightarrow>
          (case wasmCache w (algorithm_of r) of
             None \<Rightarrow>
               promise_then
                 (lockedCreate env (algorithm_of r) (descriptor_of r) (hashLength_of r) w)
                 (loaded env r)
           | Some c \<Rightarrow> cached env r c w))"
  by (cases r)
    (simp_all add: crc32_def sha224_def xxhash64_def Let_def loaded_fun split: option.splits)

lemma loaded_block:
  "loaded env r m w = block env r m (w\<lparr>wasmCache := (wasmCache w)(algorithm_of r := Some m)\<rparr>)"
  by (cases r) (simp_all add: crc32_loaded_def sha224_loaded_def xxhash64_loaded_def)

lemma cached_block:
  "cached env r c w =
     (case block env r c w of
        (Inr h, w') \<Rightarrow> (Fulfilled h, w')
      | (Inl e, w') \<Rightarrow> (Rejected e, w'))"
  by (cases r) (simp_all add: crc32_cached_def sha224_cached_def xxhash64_cached_def)

lemma block_effect:
  assumes "block env r c w = (x, w')"
  shows "same_loading w w'" and "module_frame c w w'"
    and "length (seedBuffer w') = length (seedBuffer w)"
proof -
  have "same_loading w w' \<and> module_frame c w w' \<and> length (seedBuffer w') = length (seedBuffer w)"
  proof (cases r)
    case (Crc32Request data)
    then have "wasm_calculate env c data None w = (x, w')" using assms by simp
    from wasm_calculate_effect[OF this] show ?thesis by simp
  next
    case (Sha224Request data)
    then have "wasm_calculate env c data (Some 224) w = (x, w')" using assms by simp
    from wasm_calculate_effect[OF this] show ?thesis by simp
  next
    case (Xxhash64Request data lo hi)
    then have "xxhash64_seeded env data (seedParam lo) (seedParam hi) c w = (x, w')"
      using assms by simp
    from xxhash64_seeded_effect(1-3)[OF this] show ?thesis by simp
  qed
  then show "same_loading w w'" and "module_frame c w w'"
    and "length (seedBuffer w') = length (seedBuffer w)"
    by auto
qed

lemma loaded_effect:
  assumes "loaded env r m w = (x, w')"
  shows "wasmCache w' = (wasmCache w)(algorithm_of r := Some m)"
    and "mutex w' = mutex w" and "nextModule w' = nextModule w"
    and "loaderCalls w' = loaderCalls w" and "module_frame m w w'"
    and "length (seedBuffer w') = length (seedBuffer w)"
proof -
  let ?w1 = "w\<lparr>wasmCache := (wasmCache w)(algorithm_of r := Some m)\<rparr>"
  have b: "block env r m ?w1 = (x, w')" using assms by (simp add: loaded_block)
  from block_effect[OF b]
  show "wasmCache w' = (wasmCache w)(algorithm_of r := Some m)"
    and "mutex w' = mutex w" and "nextModule w' = nextModule w"
    and "loaderCalls w' = loaderCalls w" and "module_frame m w w'"
    and "length (seedBuffer w') = length (seedBuffer w)"
    by (simp_all add: same_loading_def module_frame_def)
qed

section \<open>The objects the create functions return\<close>

lemma createCRC32_Fulfilled:
  assumes "createCRC32 env w = (Fulfilled h, w')"
  shows "h = \<lparr>wasm_ref = nextModule w,
               init = wasm_init env (nextModule w) None,
               update = wasm_update env (nextModule w),
               digest = wasm_digest env (nextModule w),
               save = Some (wasm_save env (nextModule w)),
               load = Some (wasm_load env (nextModule w)),
               blockSize = 4, digestSize = 4\<rparr>"
    and "\<exists>w1. WASMInterface env Crc32Wasm 4 w = (Fulfilled (nextModule w), w1) \<and>
              wasm_init env (nextModule w) None w1 = (Inr (), w')"
proof -
  obtain q w1 where l: "WASMInterface env Crc32Wasm 4 w = (q, w1)"
    by (cases "WASMInterface env Crc32Wasm 4 w")
  then obtain m where q: "q = Fulfilled m"
    using assms by (cases q) (auto simp: createCRC32_def promise_then_def)
  have m: "m = nextModule w" using WASMInterface_Fulfilled(1)[OF l[unfolded q]] .
  obtain x w2 where i: "wasm_init env m None w1 = (x, w2)" by (cases "wasm_init env m None w1")
  show "h = \<lparr>wasm_ref = nextModule w,
               init = wasm_init env (nextModule w) None,
               update = wasm_update env (nextModule w),
               digest = wasm_digest env (nextModule w),
               save = Some (wasm_save env (nextModule w)),
               load = Some (wasm_load env (nextModule w)),
               blockSize = 4, digestSize = 4\<rparr>"
    using assms l q i m by (auto simp: createCRC32_def promise_then_def split: sum.splits)
  show "\<exists>w1. WASMInterface env Crc32Wasm 4 w = (Fulfilled (nextModule w), w1) \<and>
              wasm_init env (nextModule w) None w1 = (Inr (), w')"
    using assms l q i m by (auto simp: createCRC32_def promise_then_def split: sum.splits)
qed

lemma createSHA224_Fulfilled:
  assumes "createSHA224 env w = (Fulfilled h, w')"
  shows "h = \<lparr>wasm_ref = nextModule w,
               init = wasm_init env (nextModule w) (Some 224),
               update = wasm_update env (nextModule w),
               digest = wasm_digest env (nextModule w),
               save = None,
               load = None,
               blockSize = 64, digestSize = 28\<rparr>"
    and "\<exists>w1. WASMInterface env Sha256Wasm 28 w = (Fulfilled (nextModule w), w1) \<and>
              wasm_init env (nextModule w) (Some 224) w1 = (Inr (), w')"
proof -
  obtain q w1 where l: "WASMInterface env Sha256Wasm 28 w = (q, w1)"
    by (cases "WASMInterface env Sha256Wasm 28 w")
  then obtain m where q: "q = Fulfilled m"
    using assms by (cases q) (auto simp: createSHA224_def promise_then_def)
  have m: "m = nextModule w" using WASMInterface_Fulfilled(1)[OF l[unfolded q]] .
  obtain x w2 where i: "wasm_init env m (Some 224) w1 = (x, w2)"
    by (cases "wasm_init env m (Some 224) w1")
  show "h = \<lparr>wasm_ref = nextModule w,
               init = wasm_init env (nextModule w) (Some 224),
               update = wasm_update env (nextModule w),
               digest = wasm_digest env (nextModule w),
               save = None,
               load = None,
               blockSize = 64, digestSize = 28\<rparr>"
    using assms l q i m by (auto simp: createSHA224_def promise_then_def split: sum.splits)
  show "\<exists>w1. WASMInterface env Sha256Wasm 28 w = (Fulfilled (nextModule w), w1) \<and>
              wasm_init env (nextModule w) (Some 224) w1 = (Inr (), w')"
    using assms l q i m by (auto simp: createSHA224_def promise_then_def split: sum.splits)
qed

lemma createXXHash64_Fulfilled:
  assumes "createXXHash64 env lo hi w = (Fulfilled h, w')"
  shows "h = \<lparr>wasm_ref = nextModule w,
               init = xxhash64_init env (nextModule w) (seedBytes (seedParam lo) (seedParam hi)),
               update = wasm_update env (nextModule w),
               digest = wasm_digest env (nextModule w),
               save = Some (wasm_save env (nextModule w)),
               load = Some (wasm_load env (nextModule w)),
               blockSize = 32, digestSize = 8\<rparr>"
    and "\<exists>w1. WASMInterface env Xxhash64Wasm 8 w = (Fulfilled (nextModule w), w1) \<and>
              xxhash64_init env (nextModule w) (seedBytes (seedParam lo) (seedParam hi)) w1 = (Inr (), w')"
    and "is_uint32 (seedParam lo)" and "is_uint32 (seedParam hi)"
proof -
  have v: "validateSeed (seedParam lo) = None" "validateSeed (seedParam hi) = None"
    using assms by (auto simp: createXXHash64_def Let_def split: option.splits)
  then show "is_uint32 (seedParam lo)" and "is_uint32 (seedParam hi)"
    by (simp_all add: validateSeed_None_iff)
  let ?f = "\<lambda>m w1.
                    case writeSeed (replicate 8 0) (seedParam lo) (seedParam hi) of
                      (Some e, instanceBuffer) \<Rightarrow> (Inl e, w1)
                    | (None, instanceBuffer) \<Rightarrow>
                        (case xxhash64_init env m instanceBuffer w1 of
                           (Inl e, w2) \<Rightarrow> (Inl e, w2)
                         | (Inr _, w2) \<Rightarrow>
                             (Inr \<lparr>wasm_ref = m,
                                   init = xxhash64_init env m instanceBuffer,
                                   update = wasm_update env m,
                                   digest = wasm_digest env m,
                                   save = Some (wasm_save env m),
                                   load = Some (wasm_load env m),
                                   blockSize = 32,
                                   digestSize = 8\<rparr>, w2))"
  have pt: "promise_then (WASMInterface env Xxhash64Wasm 8 w) ?f = (Fulfilled h, w')"
    using assms v by (simp add: createXXHash64_def Let_def)
  have ws: "writeSeed (replicate 8 0) (seedParam lo) (seedParam hi) =
    (None, seedBytes (seedParam lo) (seedParam hi))"
    by (rule writeSeed_8) simp
  obtain q w1 where l: "WASMInterface env Xxhash64Wasm 8 w = (q, w1)"
    by (cases "WASMInterface env Xxhash64Wasm 8 w")
  then obtain m where q: "q = Fulfilled m"
    using pt by (cases q) (auto simp: promise_then_def)
  have m: "m = nextModule w" using WASMInterface_Fulfilled(1)[OF l[unfolded q]] .
  obtain x w2 where i: "xxhash64_init env m (seedBytes (seedParam lo) (seedParam hi)) w1 = (x, w2)"
    by (cases "xxhash64_init env m (seedBytes (seedParam lo) (seedParam hi)) w1")
  show "h = \<lparr>wasm_ref = nextModule w,
               init = xxhash64_init env (nextModule w) (seedBytes (seedParam lo) (seedParam hi)),
               update = wasm_update env (nextModule w),
               digest = wasm_digest env (nextModule w),
               save = Some (wasm_save env (nextModule w)),
               load = Some (wasm_load env (nextModule w)),
               blockSize = 32, digestSize = 8\<rparr>"
    using pt l q i m ws by (auto simp: promise_then_def split: sum.splits)
  show "\<exists>w1. WASMInterface env Xxhash64Wasm 8 w = (Fulfilled (nextModule w), w1) \<and>
              xxhash64_init env (nextModule w) (seedBytes (seedParam lo) (seedParam hi)) w1 = (Inr (), w')"
    using pt l q i m ws by (auto simp: promise_then_def split: sum.splits)
qed

text \<open>
  C8. The Hasher that a create function returns reports the sizes of its algorithm:
  4 and 4 bytes for CRC-32, 64 and 28 for SHA-224, 32 and 8 for 64-bit xxHash.
\<close>

theorem hasher_sizes:
  assumes "createHasher env k w = (Fulfilled h, w')"
  shows "(blockSize h, digestSize h) =
           (case k of
              CreateCRC32 \<Rightarrow> (4, 4)
            | CreateSHA224 \<Rightarrow> (64, 28)
            | CreateXXHash64 _ _ \<Rightarrow> (32, 8))"
proof (cases k)
  case CreateCRC32
  then show ?thesis using assms createCRC32_Fulfilled(1)[of env w h w'] by simp
next
  case CreateSHA224
  then show ?thesis using assms createSHA224_Fulfilled(1)[of env w h w'] by simp
next
  case (CreateXXHash64 lo hi)
  then show ?thesis using assms createXXHash64_Fulfilled(1)[of env lo hi w h w'] by simp
qed

theorem hasher_sizes_witness:
  "(\<exists>h w'. createHasher plain_backend CreateCRC32 initial_world = (Fulfilled h, w') \<and>
           blockSize h = 4 \<and> digestSize h = 4) \<and>
   (\<exists>h w'. createHasher plain_backend CreateSHA224 initial_world = (Fulfilled h, w') \<and>
           blockSize h = 64 \<and> digestSize h = 28) \<and>
   (\<exists>h w'. createHasher plain_backend (CreateXXHash64 (Some (Num 7)) None) initial_world =
             (Fulfilled h, w') \<and>
           blockSize h = 32 \<and> digestSize h = 8)"
proof -
  obtain h1 w1 where c1: "createHasher plain_backend CreateCRC32 initial_world = (Fulfilled h1, w1)"
    by (simp add: run_defs)
  obtain h2 w2 where c2: "createHasher plain_backend CreateSHA224 initial_world = (Fulfilled h2, w2)"
    by (simp add: run_defs)
  obtain h3 w3 where c3:
    "createHasher plain_backend (CreateXXHash64 (Some (Num 7)) None) initial_world = (Fulfilled h3, w3)"
    by (simp add: run_defs seed_defs replicate_8 replicate_16)
  show ?thesis
    using hasher_sizes[OF c1] hasher_sizes[OF c2] hasher_sizes[OF c3] c1 c2 c3 by simp
qed

text \<open>
  C1 fails on \<^verbatim>\<open>createSHA224\<close>: the object it returns has no \<^verbatim>\<open>save\<close> and no \<^verbatim>\<open>load\<close>,
  while the objects of \<^verbatim>\<open>createCRC32\<close> and \<^verbatim>\<open>createXXHash64\<close> have both.
\<close>

theorem sha224_hasher_without_save_load:
  "(\<exists>h w'. createHasher plain_backend CreateSHA224 initial_world = (Fulfilled h, w') \<and>
           save h = None \<and> load h = None) \<and>
   (\<exists>h w'. createHasher plain_backend CreateCRC32 initial_world = (Fulfilled h, w') \<and>
           save h \<noteq> None \<and> load h \<noteq> None) \<and>
   (\<exists>h w'. createHasher plain_backend (CreateXXHash64 None None) initial_world = (Fulfilled h, w') \<and>
           save h \<noteq> None \<and> load h \<noteq> None)"
  by (simp add: run_defs seed_defs replicate_8 replicate_16)

section \<open>The encoding of a seed\<close>

lemma unat_byte_of_word:
  "unat (ucast (drop_bit n v) :: 8 word) = (unat v div 2 ^ n) mod 256" for v :: "32 word"
proof -
  have "unat (ucast (drop_bit n v) :: 8 word) = take_bit 8 (drop_bit n (unat v))"
    by (simp only: unsigned_ucast_eq unat_drop_bit_eq len_bit0 len_num1 mult_1_right numeral_One[symmetric])
      simp
  then show ?thesis by (simp add: take_bit_eq_mod drop_bit_eq_div)
qed


lemma le_value_4:
  fixes x :: nat
  assumes "x < 4294967296"
  shows "x mod 256 + 256 * ((x div 256) mod 256 + 256 * ((x div 65536) mod 256 + 256 * ((x div 16777216) mod 256))) = x"
proof -
  define x1 where "x1 = x div 256"
  define x2 where "x2 = x1 div 256"
  define x3 where "x3 = x2 div 256"
  have e2: "x div 65536 = x2"
    unfolding x2_def x1_def by (simp add: div_mult2_eq[symmetric])
  have e3: "x div 16777216 = x3"
    unfolding x3_def x2_def x1_def by (simp add: div_mult2_eq[symmetric])
  have "x3 < 256"
    using assms unfolding e3[symmetric] by (simp add: less_mult_imp_div_less)
  then have m3: "x3 mod 256 = x3" by simp
  have r2: "x2 mod 256 + 256 * x3 = x2" unfolding x3_def by simp
  have r1: "x1 mod 256 + 256 * x2 = x1" unfolding x2_def by simp
  have r0: "x mod 256 + 256 * x1 = x" unfolding x1_def by simp
  show ?thesis
    unfolding e2 e3 m3 x1_def[symmetric] by (simp only: r2 r1 r0)
qed

lemma le_value_le32: "le_value (le32 v) = unat v"
proof -
  have b: "unat v < 4294967296" using unsigned_less[of v] by simp
  have u0: "unat (ucast v :: 8 word) = unat v mod 256"
    by (simp add: unsigned_ucast_eq take_bit_eq_mod)
  show ?thesis
    using le_value_4[OF b] u0
      unat_byte_of_word[of 8 v] unat_byte_of_word[of 16 v] unat_byte_of_word[of 24 v]
    by (simp add: le32_def)
qed

lemma int_of_rat_bounds:
  fixes n :: int
  assumes "0 \<le> rat_of_int n" and "rat_of_int n \<le> 2 ^ 32 - 1"
  shows "0 \<le> n \<and> n < 2 ^ 32"
proof -
  have "rat_of_int n \<le> rat_of_int (2 ^ 32 - 1)" using assms(2) by simp
  then have "n \<le> 2 ^ 32 - 1" by (simp only: of_int_le_iff)
  moreover have "0 \<le> n" using assms(1) by simp
  ultimately show ?thesis by simp
qed

lemma ToUint32_exact:
  assumes "is_uint32 s"
  shows "s = Num (of_nat (unat (ToUint32 s)))"
proof -
  from assms obtain q where s: "s = Num q" and q: "q \<in> \<int>" "0 \<le> q" "q \<le> 2 ^ 32 - 1"
    by (cases s) (auto simp: is_uint32_def)
  from q(1) obtain n :: int where n: "q = of_int n" by (auto elim: Ints_cases)
  have nb: "0 \<le> n \<and> n < 2 ^ 32"
    using int_of_rat_bounds[of n] q(2,3) n by simp
  then have "take_bit 32 n = n"
    by (simp add: take_bit_int_eq_self)
  then have "unat (word_of_int n :: 32 word) = nat n"
    by (simp add: unsigned_of_int)
  then show ?thesis using s n nb by simp
qed

text \<open>The eight bytes decode to the two seed components, the low one at offset 0.\<close>

lemma seedBytes_decode:
  assumes "is_uint32 low" and "is_uint32 high"
  shows "Num (of_nat (le_value (take 4 (seedBytes low high)))) = low"
    and "Num (of_nat (le_value (take 4 (drop 4 (seedBytes low high))))) = high"
  using ToUint32_exact[OF assms(1)] ToUint32_exact[OF assms(2)]
  by (simp_all add: seedBytes_def length_le32 le_value_le32)

section \<open>The seed of a one-shot call\<close>



section \<open>The seed of a Hasher\<close>

lemma xxhash64_init_effect:
  assumes "xxhash64_init env m s w = (x, w')" and "length s = 8"
  shows "same_loading w w'" and "module_frame m w w'" and "seedBuffer w' = seedBuffer w"
    and "(x = Inl ComputeError \<and> w' = w \<and> length (memory (modules w m)) < 8) \<or>
         (8 \<le> length (memory (modules w m)) \<and>
          calls (modules w' m) =
            calls (modules w m) @ [(InitCall None, s @ drop 8 (memory (modules w m)))])"
proof -
  obtain r1 w1 where wm: "wasm_writeMemory m s 0 w = (r1, w1)"
    by (cases "wasm_writeMemory m s 0 w")
  note M = wasm_writeMemory_effect[OF wm]
  have all: "same_loading w w' \<and> module_frame m w w' \<and> seedBuffer w' = seedBuffer w \<and>
        ((x = Inl ComputeError \<and> w' = w \<and> length (memory (modules w m)) < 8) \<or>
         (8 \<le> length (memory (modules w m)) \<and>
          calls (modules w' m) =
            calls (modules w m) @ [(InitCall None, s @ drop 8 (memory (modules w m)))]))"
  proof (cases "r1 = Inr ()")
    case True
    then have i: "wasm_init env m None w1 = (x, w')"
      using assms(1) wm by (simp add: xxhash64_init_def)
    note I = wasm_init_effect[OF i]
    have mem: "memory (modules w1 m) = s @ drop 8 (memory (modules w m))"
      using M(5)[OF True] assms(2) by simp
    have fit: "8 \<le> length (memory (modules w m))"
      using M(7) True assms(2) by simp
    have "same_loading w w'" using M(1) I(1) by (rule same_loading_trans)
    moreover have "module_frame m w w'" using M(3) I(3) by (rule module_frame_trans)
    moreover have "seedBuffer w' = seedBuffer w" using M(2) I(2) by simp
    moreover have "calls (modules w' m) =
            calls (modules w m) @ [(InitCall None, s @ drop 8 (memory (modules w m)))]"
      using I(4) M(4) mem by simp
    ultimately show ?thesis using fit by simp
  next
    case False
    then have nofit: "length (memory (modules w m)) < 8"
      using M(7) assms(2) by simp
    have r1: "r1 = Inl ComputeError" and w1: "w1 = w"
      using wm nofit assms(2) by (auto simp: wasm_writeMemory_def Let_def split: if_splits)
    have "x = Inl ComputeError \<and> w' = w"
      using assms(1) wm r1 w1 by (simp add: xxhash64_init_def)
    then show ?thesis
      using nofit by (simp add: same_loading_refl module_frame_refl)
  qed
  show "same_loading w w'" using all by simp
  show "module_frame m w w'" using all by simp
  show "seedBuffer w' = seedBuffer w" using all by simp
  show "(x = Inl ComputeError \<and> w' = w \<and> length (memory (modules w m)) < 8) \<or>
         (8 \<le> length (memory (modules w m)) \<and>
          calls (modules w' m) =
            calls (modules w m) @ [(InitCall None, s @ drop 8 (memory (modules w m)))])"
    using all by simp
qed

text \<open>
  The invariant of a 64-bit xxHash Hasher: every time the \<^verbatim>\<open>init\<close> entry point of its
  module was invoked, the memory started with the encoded seed.
\<close>

lemma seeded_step:
  assumes "\<forall>e \<in> set (calls (modules w m)). is_init (fst e) \<longrightarrow> take 8 (snd e) = s"
    and "calls (modules w' m) = calls (modules w m) @ [(c, mem)]"
    and "is_init c \<Longrightarrow> take 8 mem = s"
  shows "\<forall>e \<in> set (calls (modules w' m)). is_init (fst e) \<longrightarrow> take 8 (snd e) = s"
  using assms by auto

lemma xxhash64_method_seeded:
  fixes env m s
  defines "h \<equiv> \<lparr>wasm_ref = m,
               init = xxhash64_init env m s,
               update = wasm_update env m,
               digest = wasm_digest env m,
               save = Some (wasm_save env m),
               load = Some (wasm_load env m),
               blockSize = 32, digestSize = 8\<rparr>"
  assumes "length s = 8"
    and "\<forall>e \<in> set (calls (modules w m)). is_init (fst e) \<longrightarrow> take 8 (snd e) = s"
  shows "\<forall>e \<in> set (calls (modules (call_method h mc w) m)). is_init (fst e) \<longrightarrow> take 8 (snd e) = s"
proof (cases mc)
  case CallInit
  obtain x w' where i: "xxhash64_init env m s w = (x, w')" by (cases "xxhash64_init env m s w")
  have w': "call_method h mc w = w'" using CallInit i by (simp add: h_def)
  from xxhash64_init_effect(4)[OF i assms(2)] show ?thesis
  proof
    assume "x = Inl ComputeError \<and> w' = w \<and> length (memory (modules w m)) < 8"
    then show ?thesis using w' assms(3) by simp
  next
    assume a: "8 \<le> length (memory (modules w m)) \<and>
          calls (modules w' m) =
            calls (modules w m) @ [(InitCall None, s @ drop 8 (memory (modules w m)))]"
    have "take 8 (s @ drop 8 (memory (modules w m))) = s" using assms(2) by simp
    then show ?thesis
      unfolding w' using seeded_step[OF assms(3) conjunct2[OF a]] by simp
  qed
next
  case (CallUpdate d)
  obtain x w' where u: "wasm_update env m d w = (x, w')" by (cases "wasm_update env m d w")
  have w': "call_method h mc w = w'" using CallUpdate u by (simp add: h_def)
  show ?thesis
    unfolding w' using seeded_step[OF assms(3) wasm_update_effect(4)[OF u]] by simp
next
  case (CallDigest t)
  obtain x w' where u: "wasm_digest env m t w = (x, w')" by (cases "wasm_digest env m t w")
  have w': "call_method h mc w = w'" using CallDigest u by (simp add: h_def)
  show ?thesis
    unfolding w' using seeded_step[OF assms(3) wasm_digest_effect(4)[OF u]] by simp
next
  case CallSave
  obtain x w' where u: "wasm_save env m w = (x, w')" by (cases "wasm_save env m w")
  have w': "call_method h mc w = w'" using CallSave u by (simp add: h_def)
  show ?thesis
    unfolding w' using seeded_step[OF assms(3) wasm_save_effect(4)[OF u]] by simp
next
  case (CallLoad b)
  obtain x w' where u: "wasm_load env m b w = (x, w')" by (cases "wasm_load env m b w")
  have w': "call_method h mc w = w'" using CallLoad u by (simp add: h_def)
  show ?thesis
    unfolding w' using seeded_step[OF assms(3) wasm_load_effect(4)[OF u]] by simp
qed

lemma xxhash64_methods_seeded:
  fixes env m s
  defines "h \<equiv> \<lparr>wasm_ref = m,
               init = xxhash64_init env m s,
               update = wasm_update env m,
               digest = wasm_digest env m,
               save = Some (wasm_save env m),
               load = Some (wasm_load env m),
               blockSize = 32, digestSize = 8\<rparr>"
  assumes "length s = 8"
    and "\<forall>e \<in> set (calls (modules w m)). is_init (fst e) \<longrightarrow> take 8 (snd e) = s"
  shows "\<forall>e \<in> set (calls (modules (call_methods h cs w) m)). is_init (fst e) \<longrightarrow> take 8 (snd e) = s"
  using assms(3)
proof (induction cs arbitrary: w)
  case Nil
  then show ?case by simp
next
  case (Cons mc cs)
  have "\<forall>e \<in> set (calls (modules (call_method h mc w) m)). is_init (fst e) \<longrightarrow> take 8 (snd e) = s"
    unfolding h_def by (rule xxhash64_method_seeded[OF assms(2) Cons.prems])
  from Cons.IH[OF this] show ?case by simp
qed

lemma take_8_halves:
  assumes "take 8 mem = s"
  shows "take 4 mem = take 4 s" and "take 4 (drop 4 mem) = take 4 (drop 4 s)"
  unfolding assms[symmetric] by (simp_all add: drop_take)

text \<open>
  C10. A Hasher of \<^verbatim>\<open>createXXHash64\<close> was created with valid seed halves; at creation
  the encoded seed was written to the start of the memory of its module and then
  \<^verbatim>\<open>init\<close> ran; every call of the method \<^verbatim>\<open>init\<close> writes the same eight bytes at offset 0
  and then runs the entry point (or throws at the write, without running it); and
  after any sequence of method calls, every run of the entry point \<^verbatim>\<open>init\<close> of the
  module found the seed at the start of the memory: the low half in bytes 0 to 3 and
  the high half in bytes 4 to 7, both little-endian.
\<close>

theorem reset_restores_seed:
  assumes "createXXHash64 env seedLow seedHigh w = (Fulfilled h, w1)"
  shows "is_uint32 (seedParam seedLow) \<and> is_uint32 (seedParam seedHigh) \<and>
         (\<exists>mem. calls (modules w1 (wasm_ref h)) = [(InitCall None, mem)] \<and>
                take 8 mem = seedBytes (seedParam seedLow) (seedParam seedHigh)) \<and>
         (\<forall>w2. (fst (init h w2) = Inl ComputeError \<and> snd (init h w2) = w2 \<and>
                 length (memory (modules w2 (wasm_ref h))) < 8) \<or>
                calls (modules (snd (init h w2)) (wasm_ref h)) =
                  calls (modules w2 (wasm_ref h)) @
                    [(InitCall None,
                      seedBytes (seedParam seedLow) (seedParam seedHigh) @
                        drop 8 (memory (modules w2 (wasm_ref h))))]) \<and>
         (\<forall>cs. \<forall>e \<in> set (calls (modules (call_methods h cs w1) (wasm_ref h))).
            is_init (fst e) \<longrightarrow>
              take 8 (snd e) = seedBytes (seedParam seedLow) (seedParam seedHigh) \<and>
              Num (of_nat (le_value (take 4 (snd e)))) = seedParam seedLow \<and>
              Num (of_nat (le_value (take 4 (drop 4 (snd e))))) = seedParam seedHigh)"
proof -
  let ?lo = "seedParam seedLow" and ?hi = "seedParam seedHigh"
  let ?s = "seedBytes ?lo ?hi"
  let ?m = "nextModule w"
  note C = createXXHash64_Fulfilled[OF assms]
  have ls: "length ?s = 8" by (rule length_seedBytes)
  have m: "wasm_ref h = ?m" and ini: "init h = xxhash64_init env ?m ?s"
    using C(1) by simp_all
  from C(2) obtain w0 where l: "WASMInterface env Xxhash64Wasm 8 w = (Fulfilled ?m, w0)"
    and i: "xxhash64_init env ?m ?s w0 = (Inr (), w1)"
    by blast
  have fresh: "calls (modules w0 ?m) = []"
    using WASMInterface_Fulfilled(8)[OF l] by simp
  have c1: "calls (modules w1 ?m) = [(InitCall None, ?s @ drop 8 (memory (modules w0 ?m)))]"
    using xxhash64_init_effect(4)[OF i ls] fresh by auto
  have p1: "\<exists>mem. calls (modules w1 (wasm_ref h)) = [(InitCall None, mem)] \<and> take 8 mem = ?s"
    unfolding m using c1 ls by simp
  have p2: "(fst (init h w2) = Inl ComputeError \<and> snd (init h w2) = w2 \<and>
                 length (memory (modules w2 (wasm_ref h))) < 8) \<or>
                calls (modules (snd (init h w2)) (wasm_ref h)) =
                  calls (modules w2 (wasm_ref h)) @
                    [(InitCall None, ?s @ drop 8 (memory (modules w2 (wasm_ref h))))]" for w2
  proof -
    obtain x w3 where e: "xxhash64_init env ?m ?s w2 = (x, w3)"
      by (cases "xxhash64_init env ?m ?s w2")
    from xxhash64_init_effect(4)[OF e ls] show ?thesis
      unfolding m ini e by auto
  qed
  have inv1: "\<forall>e \<in> set (calls (modules w1 ?m)). is_init (fst e) \<longrightarrow> take 8 (snd e) = ?s"
    unfolding c1 using ls by simp
  have inv: "\<forall>e \<in> set (calls (modules (call_methods h cs w1) ?m)).
               is_init (fst e) \<longrightarrow> take 8 (snd e) = ?s" for cs
    unfolding C(1) by (rule xxhash64_methods_seeded[OF ls inv1])
  have p3: "\<forall>cs. \<forall>e \<in> set (calls (modules (call_methods h cs w1) (wasm_ref h))).
            is_init (fst e) \<longrightarrow>
              take 8 (snd e) = ?s \<and>
              Num (of_nat (le_value (take 4 (snd e)))) = ?lo \<and>
              Num (of_nat (le_value (take 4 (drop 4 (snd e))))) = ?hi"
  proof (intro allI ballI impI)
    fix cs e
    assume e: "e \<in> set (calls (modules (call_methods h cs w1) (wasm_ref h)))" and "is_init (fst e)"
    then have t: "take 8 (snd e) = ?s" using inv[of cs] m by simp
    show "take 8 (snd e) = ?s \<and>
              Num (of_nat (le_value (take 4 (snd e)))) = ?lo \<and>
              Num (of_nat (le_value (take 4 (drop 4 (snd e))))) = ?hi"
      using t take_8_halves[OF t] seedBytes_decode[OF C(3) C(4)] by simp
  qed
  have p2': "\<forall>w2. (fst (init h w2) = Inl ComputeError \<and> snd (init h w2) = w2 \<and>
                 length (memory (modules w2 (wasm_ref h))) < 8) \<or>
                calls (modules (snd (init h w2)) (wasm_ref h)) =
                  calls (modules w2 (wasm_ref h)) @
                    [(InitCall None, ?s @ drop 8 (memory (modules w2 (wasm_ref h))))]"
    using p2 by blast
  show ?thesis
    using C(3) C(4) p1 p2' p3 by (intro conjI)
qed

theorem reset_restores_seed_witness:
  "\<exists>h w1 mem.
     createXXHash64 plain_backend (Some (Num 7)) (Some (Num 9)) initial_world = (Fulfilled h, w1) \<and>
     calls (modules w1 (wasm_ref h)) = [(InitCall None, mem)] \<and>
     take 8 mem = [7, 0, 0, 0, 9, 0, 0, 0] \<and>
     Num (of_nat (le_value (take 4 mem))) = Num 7 \<and>
     Num (of_nat (le_value (take 4 (drop 4 mem)))) = Num 9"
proof -
  obtain h w1 where c:
    "createXXHash64 plain_backend (Some (Num 7)) (Some (Num 9)) initial_world = (Fulfilled h, w1)"
    by (simp add: run_defs seed_defs replicate_8 replicate_16)
  have s: "seedBytes (Num 7) (Num 9) = [7, 0, 0, 0, 9, 0, 0, 0]"
    by (simp add: seed_defs)
  note R = reset_restores_seed[OF c, unfolded seedParam_def option.case s]
  from R obtain mem where m: "calls (modules w1 (wasm_ref h)) = [(InitCall None, mem)]"
    and t: "take 8 mem = [7, 0, 0, 0, 9, 0, 0, 0]"
    by blast
  from R have "\<forall>e \<in> set (calls (modules (call_methods h [] w1) (wasm_ref h))).
            is_init (fst e) \<longrightarrow>
              take 8 (snd e) = [7, 0, 0, 0, 9, 0, 0, 0] \<and>
              Num (of_nat (le_value (take 4 (snd e)))) = Num 7 \<and>
              Num (of_nat (le_value (take 4 (drop 4 (snd e))))) = Num 9"
    by blast
  then have "Num (of_nat (le_value (take 4 mem))) = Num 7 \<and>
             Num (of_nat (le_value (take 4 (drop 4 mem)))) = Num 9"
    using m by simp
  then show ?thesis using c m t by blast
qed

section \<open>Hashers and their modules\<close>

lemma call_method_private:
  assumes "\<And>w. same_loading w (snd (init h w)) \<and> module_frame (wasm_ref h) w (snd (init h w)) \<and>
                seedBuffer (snd (init h w)) = seedBuffer w"
    and "update h = wasm_update env (wasm_ref h)"
    and "digest h = wasm_digest env (wasm_ref h)"
    and "save h = None \<or> save h = Some (wasm_save env (wasm_ref h))"
    and "load h = None \<or> load h = Some (wasm_load env (wasm_ref h))"
  shows "private_module h"
proof -
  have "same_loading w (call_method h mc w) \<and>
        module_frame (wasm_ref h) w (call_method h mc w) \<and>
        seedBuffer (call_method h mc w) = seedBuffer w" for mc w
  proof (cases mc)
    case CallInit
    then show ?thesis using assms(1)[of w] by simp
  next
    case (CallUpdate d)
    then show ?thesis
      using wasm_update_effect(1-3)[of env "wasm_ref h" d w "fst (wasm_update env (wasm_ref h) d w)"
          "snd (wasm_update env (wasm_ref h) d w)"] assms(2)
      by simp
  next
    case (CallDigest t)
    then show ?thesis
      using wasm_digest_effect(1-3)[of env "wasm_ref h" t w "fst (wasm_digest env (wasm_ref h) t w)"
          "snd (wasm_digest env (wasm_ref h) t w)"] assms(3)
      by simp
  next
    case CallSave
    then show ?thesis
      using wasm_save_effect(1-3)[of env "wasm_ref h" w "fst (wasm_save env (wasm_ref h) w)"
          "snd (wasm_save env (wasm_ref h) w)"] assms(4)
      by (auto simp: same_loading_refl module_frame_refl)
  next
    case (CallLoad b)
    then show ?thesis
      using wasm_load_effect(1-3)[of env "wasm_ref h" b w "fst (wasm_load env (wasm_ref h) b w)"
          "snd (wasm_load env (wasm_ref h) b w)"] assms(5)
      by (auto simp: same_loading_refl module_frame_refl)
  qed
  then show ?thesis by (simp add: private_module_def)
qed

lemma wasm_init_snd:
  "same_loading w (snd (wasm_init env m v w)) \<and> module_frame m w (snd (wasm_init env m v w)) \<and>
   seedBuffer (snd (wasm_init env m v w)) = seedBuffer w"
  using wasm_init_effect(1-3)[of env m v w "fst (wasm_init env m v w)" "snd (wasm_init env m v w)"]
  by simp

lemma xxhash64_init_snd:
  assumes "length s = 8"
  shows "same_loading w (snd (xxhash64_init env m s w)) \<and>
         module_frame m w (snd (xxhash64_init env m s w)) \<and>
         seedBuffer (snd (xxhash64_init env m s w)) = seedBuffer w"
  using xxhash64_init_effect(1-3)[of env m s w "fst (xxhash64_init env m s w)"
      "snd (xxhash64_init env m s w)", OF _ assms]
  by simp

lemma createHasher_Fulfilled:
  assumes "createHasher env k w = (Fulfilled h, w')"
  shows "wasm_ref h = nextModule w" and "nextModule w' = Suc (nextModule w)"
    and "loaderCalls w' = loaderCalls w @ [loader_arguments k]"
    and "wasmCache w' = wasmCache w" and "mutex w' = mutex w" and "seedBuffer w' = seedBuffer w"
    and "module_frame (wasm_ref h) w w'"
    and "private_module h"
proof -
  have all: "wasm_ref h = nextModule w \<and> nextModule w' = Suc (nextModule w) \<and>
    loaderCalls w' = loaderCalls w @ [loader_arguments k] \<and>
    wasmCache w' = wasmCache w \<and> mutex w' = mutex w \<and> seedBuffer w' = seedBuffer w \<and>
    module_frame (wasm_ref h) w w' \<and> private_module h"
  proof (cases k)
    case CreateCRC32
    then have c: "createCRC32 env w = (Fulfilled h, w')" using assms by simp
    note C = createCRC32_Fulfilled[OF c]
    from C(2) obtain w1 where l: "WASMInterface env Crc32Wasm 4 w = (Fulfilled (nextModule w), w1)"
      and i: "wasm_init env (nextModule w) None w1 = (Inr (), w')" by blast
    note L = WASMInterface_Fulfilled[OF l] and I = wasm_init_effect[OF i]
    have r: "wasm_ref h = nextModule w" using C(1) by simp
    have p: "private_module h"
      by (rule call_method_private[where env = env]) (simp_all add: C(1) wasm_init_snd)
    have f: "module_frame (wasm_ref h) w w'"
      unfolding r using L(7) I(3) by (rule module_frame_trans)
    show ?thesis
      using r p f L(2-6) I(1,2) CreateCRC32 by (simp add: same_loading_def)
  next
    case CreateSHA224
    then have c: "createSHA224 env w = (Fulfilled h, w')" using assms by simp
    note C = createSHA224_Fulfilled[OF c]
    from C(2) obtain w1 where l: "WASMInterface env Sha256Wasm 28 w = (Fulfilled (nextModule w), w1)"
      and i: "wasm_init env (nextModule w) (Some 224) w1 = (Inr (), w')" by blast
    note L = WASMInterface_Fulfilled[OF l] and I = wasm_init_effect[OF i]
    have r: "wasm_ref h = nextModule w" using C(1) by simp
    have p: "private_module h"
      by (rule call_method_private[where env = env]) (simp_all add: C(1) wasm_init_snd)
    have f: "module_frame (wasm_ref h) w w'"
      unfolding r using L(7) I(3) by (rule module_frame_trans)
    show ?thesis
      using r p f L(2-6) I(1,2) CreateSHA224 by (simp add: same_loading_def)
  next
    case (CreateXXHash64 lo hi)
    then have c: "createXXHash64 env lo hi w = (Fulfilled h, w')" using assms by simp
    note C = createXXHash64_Fulfilled[OF c]
    let ?s = "seedBytes (seedParam lo) (seedParam hi)"
    have ls: "length ?s = 8" by (rule length_seedBytes)
    from C(2) obtain w1 where l: "WASMInterface env Xxhash64Wasm 8 w = (Fulfilled (nextModule w), w1)"
      and i: "xxhash64_init env (nextModule w) ?s w1 = (Inr (), w')" by blast
    note L = WASMInterface_Fulfilled[OF l] and I = xxhash64_init_effect[OF i ls]
    have r: "wasm_ref h = nextModule w" using C(1) by simp
    have p: "private_module h"
      by (rule call_method_private[where env = env]) (simp_all add: C(1) xxhash64_init_snd[OF ls])
    have f: "module_frame (wasm_ref h) w w'"
      unfolding r using L(7) I(2) by (rule module_frame_trans)
    show ?thesis
      using r p f L(2-6) I(1,3) CreateXXHash64 by (simp add: same_loading_def)
  qed
  show "wasm_ref h = nextModule w" and "nextModule w' = Suc (nextModule w)"
    and "loaderCalls w' = loaderCalls w @ [loader_arguments k]"
    and "wasmCache w' = wasmCache w" and "mutex w' = mutex w" and "seedBuffer w' = seedBuffer w"
    and "module_frame (wasm_ref h) w w'"
    and "private_module h"
    using all by blast+
qed

section \<open>The invariant of a sequential run\<close>

lemma promise_then_cases:
  assumes "promise_then (q, w1) f = (p, w')"
  shows "(q = Pending \<and> p = Pending \<and> w' = w1) \<or>
         (\<exists>e. q = Rejected e \<and> p = Rejected e \<and> w' = w1) \<or>
         (\<exists>m. q = Fulfilled m \<and> w' = snd (f m w1))"
  using assms by (cases q) (auto simp: promise_then_def split: prod.splits sum.splits)

lemma lockedCreate_effect:
  assumes "lockedCreate env a d n w = (q, w1)"
  shows "wasmCache w1 = wasmCache w" and "seedBuffer w1 = seedBuffer w"
    and "nextModule w \<le> nextModule w1"
    and "\<And>b. b \<noteq> a \<Longrightarrow> mutex w1 b = mutex w b"
    and "\<And>m. mutex w1 a = Ready m \<Longrightarrow>
           mutex w a = Ready m \<or> (m = nextModule w \<and> nextModule w1 = Suc m)"
    and "\<And>m. q = Fulfilled m \<Longrightarrow> mutex w1 a = Ready m"
    and "nextModule w1 \<noteq> nextModule w \<Longrightarrow> mutex w1 a = Ready (nextModule w) \<and> nextModule w1 = Suc (nextModule w)"
proof -
  have all: "wasmCache w1 = wasmCache w \<and> seedBuffer w1 = seedBuffer w \<and>
    nextModule w \<le> nextModule w1 \<and> (\<forall>b. b \<noteq> a \<longrightarrow> mutex w1 b = mutex w b) \<and>
    (\<forall>m. mutex w1 a = Ready m \<longrightarrow>
           mutex w a = Ready m \<or> (m = nextModule w \<and> nextModule w1 = Suc m)) \<and>
    (\<forall>m. q = Fulfilled m \<longrightarrow> mutex w1 a = Ready m) \<and>
    (nextModule w1 \<noteq> nextModule w \<longrightarrow> mutex w1 a = Ready (nextModule w) \<and> nextModule w1 = Suc (nextModule w))"
  proof (cases q)
    case (Fulfilled m)
    note L = lockedCreate_Fulfilled[OF assms[unfolded Fulfilled]]
    show ?thesis using L(1-3) L(4) L(5) Fulfilled by auto
  next
    case (Rejected e)
    note L = lockedCreate_Rejected[OF assms[unfolded Rejected]]
    have "\<forall>b. b \<noteq> a \<longrightarrow> mutex w1 b = mutex w b"
      using assms Rejected
      by (auto simp: lockedCreate_def split: cell.splits prod.splits promise.splits
          dest: WASMInterface_Rejected)
    then show ?thesis using L Rejected by auto
  next
    case Pending
    then show ?thesis using lockedCreate_Pending[OF assms[unfolded Pending]] by simp
  qed
  show "wasmCache w1 = wasmCache w" and "seedBuffer w1 = seedBuffer w"
    and "nextModule w \<le> nextModule w1"
    and "\<And>b. b \<noteq> a \<Longrightarrow> mutex w1 b = mutex w b"
    and "\<And>m. mutex w1 a = Ready m \<Longrightarrow>
           mutex w a = Ready m \<or> (m = nextModule w \<and> nextModule w1 = Suc m)"
    and "\<And>m. q = Fulfilled m \<Longrightarrow> mutex w1 a = Ready m"
    and "nextModule w1 \<noteq> nextModule w \<Longrightarrow> mutex w1 a = Ready (nextModule w) \<and> nextModule w1 = Suc (nextModule w)"
    using all by blast+
qed

text \<open>What a one-shot call can do to the caches, the cells and the store.\<close>

lemma calculate_effect:
  assumes "calculate env r w = (p, w')"
  shows "nextModule w \<le> nextModule w'"
    and "length (seedBuffer w') = length (seedBuffer w)"
    and "\<And>a c. wasmCache w' a = Some c \<Longrightarrow>
           wasmCache w a = Some c \<or> mutex w' a = Ready c"
    and "\<And>a m. mutex w' a = Ready m \<Longrightarrow>
           mutex w a = Ready m \<or> (m = nextModule w \<and> nextModule w' = Suc m)"
proof -
  let ?a = "algorithm_of r"
  have all: "nextModule w \<le> nextModule w' \<and> length (seedBuffer w') = length (seedBuffer w) \<and>
    (\<forall>a c. wasmCache w' a = Some c \<longrightarrow> wasmCache w a = Some c \<or> mutex w' a = Ready c) \<and>
    (\<forall>a m. mutex w' a = Ready m \<longrightarrow>
           mutex w a = Ready m \<or> (m = nextModule w \<and> nextModule w' = Suc m))"
  proof (cases "early r")
    case (Some e)
    then have "w' = w" using assms by (simp add: calculate_shape)
    then show ?thesis by simp
  next
    case None
    show ?thesis
    proof (cases "wasmCache w ?a")
      case (Some c)
      then have "cached env r c w = (p, w')" using assms None by (simp add: calculate_shape)
      then obtain x where "block env r c w = (x, w')"
        by (auto simp: cached_block split: prod.splits sum.splits)
      from block_effect[OF this] show ?thesis by (simp add: same_loading_def)
    next
      case miss: None
      obtain q w1 where lc: "lockedCreate env ?a (descriptor_of r) (hashLength_of r) w = (q, w1)"
        by (cases "lockedCreate env ?a (descriptor_of r) (hashLength_of r) w")
      have pt: "promise_then (q, w1) (loaded env r) = (p, w')"
        using assms None miss lc by (simp add: calculate_shape)
      note L = lockedCreate_effect[OF lc]
      have base: "nextModule w \<le> nextModule w1 \<and> length (seedBuffer w1) = length (seedBuffer w) \<and>
        (\<forall>a c. wasmCache w1 a = Some c \<longrightarrow> wasmCache w a = Some c \<or> mutex w1 a = Ready c) \<and>
        (\<forall>a m. mutex w1 a = Ready m \<longrightarrow>
           mutex w a = Ready m \<or> (m = nextModule w \<and> nextModule w1 = Suc m))"
        using L(1-3) L(4) L(5) by metis
      from promise_then_cases[OF pt] show ?thesis
      proof (elim disjE exE conjE)
        assume "w' = w1" "q = Pending"
        then show ?thesis using base by simp
      next
        fix e assume "w' = w1" "q = Rejected e"
        then show ?thesis using base by simp
      next
        fix m assume q: "q = Fulfilled m" and w': "w' = snd (loaded env r m w1)"
        have ld: "loaded env r m w1 = (fst (loaded env r m w1), w')" using w' by simp
        note D = loaded_effect[OF ld]
        have rm: "mutex w1 ?a = Ready m" using L(6)[OF q] .
        have "\<forall>a c. wasmCache w' a = Some c \<longrightarrow> wasmCache w a = Some c \<or> mutex w' a = Ready c"
          using D(1,2) L(1) rm by auto
        then show ?thesis using base D(2,3,6) by simp
      qed
    qed
  qed
  show "nextModule w \<le> nextModule w'"
    and "length (seedBuffer w') = length (seedBuffer w)"
    and "\<And>a c. wasmCache w' a = Some c \<Longrightarrow>
           wasmCache w a = Some c \<or> mutex w' a = Ready c"
    and "\<And>a m. mutex w' a = Ready m \<Longrightarrow>
           mutex w a = Ready m \<or> (m = nextModule w \<and> nextModule w' = Suc m)"
    using all by blast+
qed

lemma WASMInterface_effect:
  assumes "WASMInterface env d n w = (q, w1)"
  shows "wasmCache w1 = wasmCache w" and "mutex w1 = mutex w" and "seedBuffer w1 = seedBuffer w"
    and "nextModule w \<le> nextModule w1"
  using assms
  by (auto simp: WASMInterface_def loader_settle_def loader_invoke_def split: option.splits)

lemma createHasher_effect:
  assumes "createHasher env k w = (p, w')"
  shows "wasmCache w' = wasmCache w" and "mutex w' = mutex w" and "seedBuffer w' = seedBuffer w"
    and "nextModule w \<le> nextModule w'"
proof -
  obtain q w1 where l: "WASMInterface env (fst (loader_arguments k)) (snd (loader_arguments k)) w = (q, w1)"
    by (cases "WASMInterface env (fst (loader_arguments k)) (snd (loader_arguments k)) w")
  note L = WASMInterface_effect[OF l]
  have same1: "same_loading w1 w2 \<Longrightarrow> seedBuffer w2 = seedBuffer w1 \<Longrightarrow>
    wasmCache w2 = wasmCache w \<and> mutex w2 = mutex w \<and> seedBuffer w2 = seedBuffer w \<and>
    nextModule w \<le> nextModule w2" for w2
    using L by (simp add: same_loading_def)
  have all: "wasmCache w' = wasmCache w \<and> mutex w' = mutex w \<and> seedBuffer w' = seedBuffer w \<and>
    nextModule w \<le> nextModule w'"
  proof (cases k)
    case CreateCRC32
    let ?f = "\<lambda>m w1.
          case wasm_init env m None w1 of
            (Inl e, w2) \<Rightarrow> (Inl e, w2)
          | (Inr _, w2) \<Rightarrow>
              (Inr \<lparr>wasm_ref = m,
                    init = wasm_init env m None,
                    update = wasm_update env m,
                    digest = wasm_digest env m,
                    save = Some (wasm_save env m),
                    load = Some (wasm_load env m),
                    blockSize = 4,
                    digestSize = 4\<rparr>, w2)"
    have pt: "promise_then (q, w1) ?f = (p, w')"
      using assms l CreateCRC32 by (simp add: createCRC32_def)
    have sf: "snd (?f m w1) = snd (wasm_init env m None w1)" for m
      by (auto split: prod.splits sum.splits)
    from promise_then_cases[OF pt] have "w' = w1 \<or> (\<exists>m. w' = snd (wasm_init env m None w1))"
      unfolding sf by blast
    then show ?thesis
      using same1[OF same_loading_refl refl] same1 wasm_init_snd[of w1 env _ None] by auto
  next
    case CreateSHA224
    let ?f = "\<lambda>m w1.
          case wasm_init env m (Some 224) w1 of
            (Inl e, w2) \<Rightarrow> (Inl e, w2)
          | (Inr _, w2) \<Rightarrow>
              (Inr \<lparr>wasm_ref = m,
                    init = wasm_init env m (Some 224),
                    update = wasm_update env m,
                    digest = wasm_digest env m,
                    save = None,
                    load = None,
                    blockSize = 64,
                    digestSize = 28\<rparr>, w2)"
    have pt: "promise_then (q, w1) ?f = (p, w')"
      using assms l CreateSHA224 by (simp add: createSHA224_def)
    have sf: "snd (?f m w1) = snd (wasm_init env m (Some 224) w1)" for m
      by (auto split: prod.splits sum.splits)
    from promise_then_cases[OF pt] have "w' = w1 \<or> (\<exists>m. w' = snd (wasm_init env m (Some 224) w1))"
      unfolding sf by blast
    then show ?thesis
      using same1[OF same_loading_refl refl] same1 wasm_init_snd[of w1 env _ "Some 224"] by auto
  next
    case (CreateXXHash64 lo hi)
    let ?s = "seedBytes (seedParam lo) (seedParam hi)"
    have ls: "length ?s = 8" by (rule length_seedBytes)
    show ?thesis
    proof (cases "validateSeed (seedParam lo) = None \<and> validateSeed (seedParam hi) = None")
      case False
      then have "w' = w"
        using assms CreateXXHash64 by (auto simp: createXXHash64_def Let_def split: option.splits)
      then show ?thesis by simp
    next
      case True
      let ?f = "\<lambda>m w1.
                    case writeSeed (replicate 8 0) (seedParam lo) (seedParam hi) of
                      (Some e, instanceBuffer) \<Rightarrow> (Inl e, w1)
                    | (None, instanceBuffer) \<Rightarrow>
                        (case xxhash64_init env m instanceBuffer w1 of
                           (Inl e, w2) \<Rightarrow> (Inl e, w2)
                         | (Inr _, w2) \<Rightarrow>
                             (Inr \<lparr>wasm_ref = m,
                                   init = xxhash64_init env m instanceBuffer,
                                   update = wasm_update env m,
                                   digest = wasm_digest env m,
                                   save = Some (wasm_save env m),
                                   load = Some (wasm_load env m),
                                   blockSize = 32,
                                   digestSize = 8\<rparr>, w2))"
      have pt: "promise_then (q, w1) ?f = (p, w')"
        using assms l CreateXXHash64 True by (simp add: createXXHash64_def Let_def)
      have ws: "writeSeed (replicate 8 0) (seedParam lo) (seedParam hi) = (None, ?s)"
        by (rule writeSeed_8) simp
      have sf: "snd (?f m w1) = snd (xxhash64_init env m ?s w1)" for m
        unfolding ws by (auto split: prod.splits sum.splits)
      from promise_then_cases[OF pt] have "w' = w1 \<or> (\<exists>m. w' = snd (xxhash64_init env m ?s w1))"
        unfolding sf by blast
      then show ?thesis
        using same1[OF same_loading_refl refl] same1 xxhash64_init_snd[OF ls, of w1 env] by auto
    qed
  qed
  show "wasmCache w' = wasmCache w" and "mutex w' = mutex w" and "seedBuffer w' = seedBuffer w"
    and "nextModule w \<le> nextModule w'"
    using all by blast+
qed

lemma isolated_initial: "isolated (initial_world, [])"
  by (simp add: isolated_def wf_world_def initial_world_def)

lemma isolated_perform:
  assumes "isolated s"
  shows "isolated (perform env a s)"
proof -
  obtain w hs where s: "s = (w, hs)" by (cases s)
  have wf: "wf_world w" and d: "distinct (map wasm_ref hs)"
    and H: "\<And>h. h \<in> set hs \<Longrightarrow> wasm_ref h < nextModule w \<and> private_module h \<and>
              (\<forall>a. wasmCache w a \<noteq> Some (wasm_ref h) \<and> mutex w a \<noteq> Ready (wasm_ref h))"
    using assms s by (auto simp: isolated_def)
  have wc: "\<And>a c. wasmCache w a = Some c \<Longrightarrow> c < nextModule w"
    and wm: "\<And>a m. mutex w a = Ready m \<Longrightarrow> m < nextModule w"
    and wl: "length (seedBuffer w) = 8"
    using wf by (auto simp: wf_world_def)
  show ?thesis
  proof (cases a)
    case (Calculate r)
    obtain p w' where c: "calculate env r w = (p, w')" by (cases "calculate env r w")
    note E = calculate_effect[OF c]
    have m': "\<And>a m. mutex w' a = Ready m \<Longrightarrow> m < nextModule w'"
      using E(4) E(1) wm by (metis lessI less_le_trans)
    have c': "\<And>a c. wasmCache w' a = Some c \<Longrightarrow> c < nextModule w'"
      using E(3) E(1) wc m' by (metis less_le_trans)
    have wf': "wf_world w'"
      using m' c' E(2) wl by (simp add: wf_world_def)
    have "wasm_ref h < nextModule w' \<and> private_module h \<and>
              (\<forall>a. wasmCache w' a \<noteq> Some (wasm_ref h) \<and> mutex w' a \<noteq> Ready (wasm_ref h))"
      if "h \<in> set hs" for h
    proof -
      note h = H[OF that]
      have mm: "mutex w' a \<noteq> Ready (wasm_ref h)" for a
        using E(4)[of a "wasm_ref h"] h by auto
      have "wasmCache w' a \<noteq> Some (wasm_ref h)" for a
        using E(3)[of a "wasm_ref h"] h mm by auto
      then show ?thesis using h mm E(1) by auto
    qed
    then show ?thesis using wf' d s Calculate c by (simp add: isolated_def)
  next
    case (Create k)
    obtain p w' where c: "createHasher env k w = (p, w')" by (cases "createHasher env k w")
    note E = createHasher_effect[OF c]
    have wf': "wf_world w'"
      unfolding wf_world_def E(1,2,3)
      using wc wm wl E(4) by (meson less_le_trans)
    have old: "wasm_ref h < nextModule w' \<and> private_module h \<and>
              (\<forall>a. wasmCache w' a \<noteq> Some (wasm_ref h) \<and> mutex w' a \<noteq> Ready (wasm_ref h))"
      if "h \<in> set hs" for h
      using H[OF that] E by auto
    show ?thesis
    proof (cases p)
      case (Fulfilled h)
      note F = createHasher_Fulfilled[OF c[unfolded Fulfilled]]
      have new: "wasm_ref h < nextModule w' \<and> private_module h \<and>
              (\<forall>a. wasmCache w' a \<noteq> Some (wasm_ref h) \<and> mutex w' a \<noteq> Ready (wasm_ref h))"
        using F(1,2,4,5,8) wc wm by (metis lessI less_irrefl)
      have "wasm_ref h \<notin> wasm_ref ` set hs"
      proof
        assume "wasm_ref h \<in> wasm_ref ` set hs"
        then obtain x where x: "x \<in> set hs" and e: "wasm_ref h = wasm_ref x" by auto
        have "wasm_ref x < nextModule w" using H[OF x] by simp
        then show False using F(1) e by simp
      qed
      then have d': "distinct (map wasm_ref (hs @ [h]))" using d by simp
      show ?thesis
        using wf' d' old new s Create c Fulfilled by (auto simp: isolated_def)
    next
      case (Rejected e)
      then show ?thesis using wf' d old s Create c by (simp add: isolated_def)
    next
      case Pending
      then show ?thesis using wf' d old s Create c by (simp add: isolated_def)
    qed
  next
    case (Invoke i mc)
    show ?thesis
    proof (cases "i < length hs")
      case False
      then show ?thesis using assms s Invoke by simp
    next
      case True
      let ?h = "hs ! i" and ?w' = "call_method (hs ! i) mc w"
      have hi: "?h \<in> set hs" using True by simp
      have p: "same_loading w ?w'" "seedBuffer ?w' = seedBuffer w"
        using H[OF hi] by (simp_all add: private_module_def)
      have wf': "wf_world ?w'"
        using wf p by (simp add: wf_world_def same_loading_def)
      have "wasm_ref h < nextModule ?w' \<and> private_module h \<and>
              (\<forall>a. wasmCache ?w' a \<noteq> Some (wasm_ref h) \<and> mutex ?w' a \<noteq> Ready (wasm_ref h))"
        if "h \<in> set hs" for h
        using H[OF that] p by (simp add: same_loading_def)
      then show ?thesis using wf' d s Invoke True by (simp add: isolated_def)
    qed
  qed
qed

lemma isolated_perform_all:
  "isolated s \<Longrightarrow> isolated (perform_all env as s)"
  by (induction as arbitrary: s) (simp_all add: isolated_perform)

section \<open>Calls that find the module cached: what they do to it\<close>

lemma block_invokes_init:
  assumes "block env r c w = (x, w')" and "writable r w c"
  shows "\<exists>rest. calls (modules w' c) =
           calls (modules w c) @
             (InitCall (variant_of r), memory_at_init r (memory (modules w c))) # rest"
proof (cases r)
  case (Crc32Request data)
  then have "wasm_calculate env c data None w = (x, w')" using assms(1) by simp
  from wasm_calculate_effect(4)[OF this] show ?thesis
    using Crc32Request by (simp add: memory_at_init_def)
next
  case (Sha224Request data)
  then have "wasm_calculate env c data (Some 224) w = (x, w')" using assms(1) by simp
  from wasm_calculate_effect(4)[OF this] show ?thesis
    using Sha224Request by (simp add: memory_at_init_def)
next
  case (Xxhash64Request data lo hi)
  then have s: "xxhash64_seeded env data (seedParam lo) (seedParam hi) c w = (x, w')"
    using assms(1) by simp
  have l: "length (seedBuffer w) = 8" and m: "8 \<le> length (memory (modules w c))"
    using assms(2) Xxhash64Request by (simp_all add: writable_def)
  from xxhash64_seeded_effect(5)[OF s l m] show ?thesis
    using Xxhash64Request by (simp add: memory_at_init_def)
qed

lemma block_Inr:
  assumes "block env r c w = (Inr h, w')"
  shows "map fst (calls (modules w' c)) =
           map fst (calls (modules w c)) @
             [InitCall (variant_of r), UpdateCall (data_of r), DigestCall Hex]"
proof (cases r)
  case (Crc32Request data)
  then show ?thesis using assms wasm_calculate_Inr[of env c data None w h w'] by simp
next
  case (Sha224Request data)
  then show ?thesis using assms wasm_calculate_Inr[of env c data "Some 224" w h w'] by simp
next
  case (Xxhash64Request data lo hi)
  then show ?thesis
    using assms xxhash64_seeded_effect(6)[of env data "seedParam lo" "seedParam hi" c w "Inr h" w' h]
    by simp
qed

text \<open>
  C6. A one-shot call that passes validation and finds the module of its algorithm
  cached runs its synchronous block on the cached module and settles with what the
  block returns or throws. It does not invoke the Module Loader and creates no
  module; it leaves every cache and cell as it is and changes no module but the cached
  one. Whatever the outcome, the \<^verbatim>\<open>init\<close> entry point of the cached module is invoked
  (for 64-bit xxHash after the seed was written to its memory, when the memory has
  room for it), and a digest that is returned was computed by invoking init, update
  and digest on the cached module. So a call that invokes the loader found its cache
  empty.
\<close>

theorem cached_module_reused:
  assumes "calculate env r w = (p, w')"
  shows "(\<forall>c. wasmCache w (algorithm_of r) = Some c \<and> early r = None \<longrightarrow>
            (\<exists>x. block env r c w = (x, w') \<and>
                 p = (case x of Inl e \<Rightarrow> Rejected e | Inr h \<Rightarrow> Fulfilled h)) \<and>
            (writable r w c \<longrightarrow>
               (\<exists>rest. calls (modules w' c) =
                  calls (modules w c) @
                    (InitCall (variant_of r), memory_at_init r (memory (modules w c))) # rest)) \<and>
            (\<forall>h. p = Fulfilled h \<longrightarrow>
               map fst (calls (modules w' c)) =
                 map fst (calls (modules w c)) @
                   [InitCall (variant_of r), UpdateCall (data_of r), DigestCall Hex])) \<and>
         (\<forall>c. wasmCache w (algorithm_of r) = Some c \<longrightarrow>
            p \<noteq> Pending \<and>
            loaderCalls w' = loaderCalls w \<and> nextModule w' = nextModule w \<and>
            wasmCache w' = wasmCache w \<and> mutex w' = mutex w \<and>
            module_frame c w w') \<and>
         (loaderCalls w' \<noteq> loaderCalls w \<longrightarrow> wasmCache w (algorithm_of r) = None)"
proof -
  have run: "(\<exists>x. block env r c w = (x, w') \<and>
                 p = (case x of Inl e \<Rightarrow> Rejected e | Inr h \<Rightarrow> Fulfilled h)) \<and>
            (writable r w c \<longrightarrow>
               (\<exists>rest. calls (modules w' c) =
                  calls (modules w c) @
                    (InitCall (variant_of r), memory_at_init r (memory (modules w c))) # rest)) \<and>
            (\<forall>h. p = Fulfilled h \<longrightarrow>
               map fst (calls (modules w' c)) =
                 map fst (calls (modules w c)) @
                   [InitCall (variant_of r), UpdateCall (data_of r), DigestCall Hex])"
    if c: "wasmCache w (algorithm_of r) = Some c" and v: "early r = None" for c
  proof -
    have "cached env r c w = (p, w')" using assms c v by (simp add: calculate_shape)
    then obtain x where b: "block env r c w = (x, w')"
      and p: "p = (case x of Inl e \<Rightarrow> Rejected e | Inr h \<Rightarrow> Fulfilled h)"
      by (auto simp: cached_block split: prod.splits sum.splits)
    have i: "writable r w c \<Longrightarrow> \<exists>rest. calls (modules w' c) =
                  calls (modules w c) @
                    (InitCall (variant_of r), memory_at_init r (memory (modules w c))) # rest"
      by (rule block_invokes_init[OF b])
    have f: "map fst (calls (modules w' c)) =
                 map fst (calls (modules w c)) @
                   [InitCall (variant_of r), UpdateCall (data_of r), DigestCall Hex]"
      if "p = Fulfilled h" for h
    proof -
      have "x = Inr h" using that p by (cases x) simp_all
      then show ?thesis using block_Inr[of env r c w h w'] b by simp
    qed
    show ?thesis using b p i f by blast
  qed
  have hit: "p \<noteq> Pending \<and>
            loaderCalls w' = loaderCalls w \<and> nextModule w' = nextModule w \<and>
            wasmCache w' = wasmCache w \<and> mutex w' = mutex w \<and>
            module_frame c w w'"
    if "wasmCache w (algorithm_of r) = Some c" for c
    using calculate_cached(1-3)[OF that assms] by (simp add: same_loading_def)
  have miss: "loaderCalls w' \<noteq> loaderCalls w \<longrightarrow> wasmCache w (algorithm_of r) = None"
    using hit by (cases "wasmCache w (algorithm_of r)") auto
  show ?thesis using run hit miss by blast
qed

theorem cached_module_reused_witness:
  "wasmCache cached_world CRC32 = Some 0 \<and>
   wasmCache cached_world SHA224 = Some 1 \<and>
   wasmCache cached_world XXHASH64 = Some 2 \<and>
   (\<exists>h. fst (calculate plain_backend (Crc32Request (StringData ''xyz'')) cached_world) = Fulfilled h) \<and>
   loaderCalls (snd (calculate plain_backend (Crc32Request (StringData ''xyz'')) cached_world)) =
     loaderCalls cached_world \<and>
   (\<exists>rest. calls (modules (snd (calculate plain_backend (Crc32Request (StringData ''xyz'')) cached_world)) 0) =
      calls (modules cached_world 0) @ (InitCall None, memory (modules cached_world 0)) # rest) \<and>
   (\<exists>h. fst (calculate plain_backend (Sha224Request (StringData ''xyz'')) cached_world) = Fulfilled h) \<and>
   loaderCalls (snd (calculate plain_backend (Sha224Request (StringData ''xyz'')) cached_world)) =
     loaderCalls cached_world \<and>
   (\<exists>rest. calls (modules (snd (calculate plain_backend (Sha224Request (StringData ''xyz'')) cached_world)) 1) =
      calls (modules cached_world 1) @ (InitCall (Some 224), memory (modules cached_world 1)) # rest) \<and>
   (\<exists>h. fst (calculate plain_backend
            (Xxhash64Request (StringData ''xyz'') (Some (Num 3)) (Some (Num 4))) cached_world) = Fulfilled h) \<and>
   loaderCalls (snd (calculate plain_backend
            (Xxhash64Request (StringData ''xyz'') (Some (Num 3)) (Some (Num 4))) cached_world)) =
     loaderCalls cached_world \<and>
   (\<exists>rest. calls (modules (snd (calculate plain_backend
            (Xxhash64Request (StringData ''xyz'') (Some (Num 3)) (Some (Num 4))) cached_world)) 2) =
      calls (modules cached_world 2) @
        (InitCall None, [3, 0, 0, 0, 4, 0, 0, 0] @ drop 8 (memory (modules cached_world 2))) # rest)"
proof -
  let ?r1 = "Crc32Request (StringData ''xyz'')"
  let ?r2 = "Sha224Request (StringData ''xyz'')"
  let ?r3 = "Xxhash64Request (StringData ''xyz'') (Some (Num 3)) (Some (Num 4))"
  have c1: "wasmCache cached_world CRC32 = Some 0"
    and c2: "wasmCache cached_world SHA224 = Some 1"
    and c3: "wasmCache cached_world XXHASH64 = Some 2"
    by (simp_all add: cached_world_def run_defs seed_defs replicate_8 replicate_16)
  have v3: "early ?r3 = None"
    by (simp add: seedParam_def validateSeed_def)
  have w3: "writable ?r3 cached_world 2"
    by (simp add: writable_def cached_world_def run_defs seed_defs replicate_8 replicate_16)
  have s3: "seedBytes (Num 3) (Num 4) = [3, 0, 0, 0, 4, 0, 0, 0]"
    by (simp add: seed_defs)
  have e1: "calculate plain_backend ?r1 cached_world =
    (fst (calculate plain_backend ?r1 cached_world), snd (calculate plain_backend ?r1 cached_world))"
    by simp
  have e2: "calculate plain_backend ?r2 cached_world =
    (fst (calculate plain_backend ?r2 cached_world), snd (calculate plain_backend ?r2 cached_world))"
    by simp
  have e3: "calculate plain_backend ?r3 cached_world =
    (fst (calculate plain_backend ?r3 cached_world), snd (calculate plain_backend ?r3 cached_world))"
    by simp
  have f1: "\<exists>h. fst (calculate plain_backend ?r1 cached_world) = Fulfilled h"
    using c1 by (simp add: crc32_def crc32_cached_def wasm_calculate_def wasm_init_def
        wasm_update_def wasm_digest_def run_entry_def plain_backend_def)
  have f2: "\<exists>h. fst (calculate plain_backend ?r2 cached_world) = Fulfilled h"
    using c2 by (simp add: sha224_def sha224_cached_def wasm_calculate_def wasm_init_def
        wasm_update_def wasm_digest_def run_entry_def plain_backend_def)
  have f3: "\<exists>h. fst (calculate plain_backend ?r3 cached_world) = Fulfilled h"
    by (simp add: cached_world_def run_defs seed_defs replicate_8 replicate_16)
  have t1: "loaderCalls (snd (calculate plain_backend ?r1 cached_world)) = loaderCalls cached_world \<and>
    (\<exists>rest. calls (modules (snd (calculate plain_backend ?r1 cached_world)) 0) =
      calls (modules cached_world 0) @ (InitCall None, memory (modules cached_world 0)) # rest)"
    using cached_module_reused[OF e1] c1 by (simp add: writable_def memory_at_init_def)
  have t2: "loaderCalls (snd (calculate plain_backend ?r2 cached_world)) = loaderCalls cached_world \<and>
    (\<exists>rest. calls (modules (snd (calculate plain_backend ?r2 cached_world)) 1) =
      calls (modules cached_world 1) @ (InitCall (Some 224), memory (modules cached_world 1)) # rest)"
    using cached_module_reused[OF e2] c2 by (simp add: writable_def memory_at_init_def)
  have t3: "loaderCalls (snd (calculate plain_backend ?r3 cached_world)) = loaderCalls cached_world \<and>
    (\<exists>rest. calls (modules (snd (calculate plain_backend ?r3 cached_world)) 2) =
      calls (modules cached_world 2) @
        (InitCall None, [3, 0, 0, 0, 4, 0, 0, 0] @ drop 8 (memory (modules cached_world 2))) # rest)"
  proof -
    have h: "algorithm_of ?r3 = XXHASH64" "variant_of ?r3 = None"
      "memory_at_init ?r3 mem = [3, 0, 0, 0, 4, 0, 0, 0] @ drop 8 mem" for mem
      using s3 by (simp_all add: memory_at_init_def seedParam_def)
    from cached_module_reused[OF e3, unfolded h] c3 v3 w3 show ?thesis by blast
  qed
  show ?thesis
    using c1 c2 c3 f1 f2 f3 t1 t2 t3 by (intro conjI) blast+
qed

section \<open>What every creation does\<close>

lemma WASMInterface_outcome:
  assumes "WASMInterface env d n w = (q, w1)"
  shows "loaderCalls w1 = loaderCalls w @ [(d, n)]"
    and "\<And>e. loadError env d n (length (loaderCalls w)) = Some e \<Longrightarrow>
           q = Rejected e \<and> nextModule w1 = nextModule w \<and> modules w1 = modules w"
    and "loadError env d n (length (loaderCalls w)) = None \<Longrightarrow>
           q = Fulfilled (nextModule w) \<and> nextModule w1 = Suc (nextModule w) \<and>
           module_frame (nextModule w) w w1"
  using assms
  by (auto simp: WASMInterface_def loader_settle_def loader_invoke_def module_frame_def
      split: option.splits)

text \<open>
  A creation that passes validation is the Module Loader followed by a callback that
  works on the module it is handed and on nothing else.
\<close>

lemma createHasher_shape:
  assumes "refused k = None"
  shows "\<exists>f. createHasher env k w =
               promise_then (WASMInterface env (fst (loader_arguments k)) (snd (loader_arguments k)) w) f \<and>
             (\<forall>m w1. same_loading w1 (snd (f m w1)) \<and> module_frame m w1 (snd (f m w1)) \<and>
                     seedBuffer (snd (f m w1)) = seedBuffer w1)"
proof (cases k)
  case CreateCRC32
  let ?f = "\<lambda>m w1.
          case wasm_init env m None w1 of
            (Inl e, w2) \<Rightarrow> (Inl e, w2)
          | (Inr _, w2) \<Rightarrow>
              (Inr \<lparr>wasm_ref = m,
                    init = wasm_init env m None,
                    update = wasm_update env m,
                    digest = wasm_digest env m,
                    save = Some (wasm_save env m),
                    load = Some (wasm_load env m),
                    blockSize = 4,
                    digestSize = 4\<rparr>, w2)"
  have sf: "snd (?f m w1) = snd (wasm_init env m None w1)" for m w1
    by (auto split: prod.splits sum.splits)
  have "createHasher env k w = promise_then (WASMInterface env Crc32Wasm 4 w) ?f"
    using CreateCRC32 by (simp add: createCRC32_def)
  moreover have "\<forall>m w1. same_loading w1 (snd (?f m w1)) \<and> module_frame m w1 (snd (?f m w1)) \<and>
                     seedBuffer (snd (?f m w1)) = seedBuffer w1"
    unfolding sf using wasm_init_snd by blast
  ultimately show ?thesis using CreateCRC32 by (intro exI[of _ ?f]) simp
next
  case CreateSHA224
  let ?f = "\<lambda>m w1.
          case wasm_init env m (Some 224) w1 of
            (Inl e, w2) \<Rightarrow> (Inl e, w2)
          | (Inr _, w2) \<Rightarrow>
              (Inr \<lparr>wasm_ref = m,
                    init = wasm_init env m (Some 224),
                    update = wasm_update env m,
                    digest = wasm_digest env m,
                    save = None,
                    load = None,
                    blockSize = 64,
                    digestSize = 28\<rparr>, w2)"
  have sf: "snd (?f m w1) = snd (wasm_init env m (Some 224) w1)" for m w1
    by (auto split: prod.splits sum.splits)
  have "createHasher env k w = promise_then (WASMInterface env Sha256Wasm 28 w) ?f"
    using CreateSHA224 by (simp add: createSHA224_def)
  moreover have "\<forall>m w1. same_loading w1 (snd (?f m w1)) \<and> module_frame m w1 (snd (?f m w1)) \<and>
                     seedBuffer (snd (?f m w1)) = seedBuffer w1"
    unfolding sf using wasm_init_snd by blast
  ultimately show ?thesis using CreateSHA224 by (intro exI[of _ ?f]) simp
next
  case (CreateXXHash64 lo hi)
  let ?s = "seedBytes (seedParam lo) (seedParam hi)"
  have ls: "length ?s = 8" by (rule length_seedBytes)
  have v: "validateSeed (seedParam lo) = None" "validateSeed (seedParam hi) = None"
    using assms CreateXXHash64 by (auto split: option.splits)
  let ?f = "\<lambda>m w1.
                    case writeSeed (replicate 8 0) (seedParam lo) (seedParam hi) of
                      (Some e, instanceBuffer) \<Rightarrow> (Inl e, w1)
                    | (None, instanceBuffer) \<Rightarrow>
                        (case xxhash64_init env m instanceBuffer w1 of
                           (Inl e, w2) \<Rightarrow> (Inl e, w2)
                         | (Inr _, w2) \<Rightarrow>
                             (Inr \<lparr>wasm_ref = m,
                                   init = xxhash64_init env m instanceBuffer,
                                   update = wasm_update env m,
                                   digest = wasm_digest env m,
                                   save = Some (wasm_save env m),
                                   load = Some (wasm_load env m),
                                   blockSize = 32,
                                   digestSize = 8\<rparr>, w2))"
  have ws: "writeSeed (replicate 8 0) (seedParam lo) (seedParam hi) = (None, ?s)"
    by (rule writeSeed_8) simp
  have sf: "snd (?f m w1) = snd (xxhash64_init env m ?s w1)" for m w1
    unfolding ws by (auto split: prod.splits sum.splits)
  have "createHasher env k w = promise_then (WASMInterface env Xxhash64Wasm 8 w) ?f"
    using CreateXXHash64 v by (simp add: createXXHash64_def Let_def)
  moreover have "\<forall>m w1. same_loading w1 (snd (?f m w1)) \<and> module_frame m w1 (snd (?f m w1)) \<and>
                     seedBuffer (snd (?f m w1)) = seedBuffer w1"
    unfolding sf using xxhash64_init_snd[OF ls] by blast
  ultimately show ?thesis using CreateXXHash64 by (intro exI[of _ ?f]) simp
qed

lemma createHasher_refused:
  assumes "refused k = Some e"
  shows "createHasher env k w = (Rejected e, w)"
proof (cases k)
  case (CreateXXHash64 lo hi)
  then show ?thesis
    using assms by (auto simp: createXXHash64_def Let_def split: option.splits)
qed (use assms in simp_all)

lemma createHasher_loader:
  assumes "createHasher env k w = (p, w')" and "refused k = None"
  shows "p \<noteq> Pending"
    and "loaderCalls w' = loaderCalls w @ [loader_arguments k]"
    and "\<And>e. loadError env (fst (loader_arguments k)) (snd (loader_arguments k))
                (length (loaderCalls w)) = Some e \<Longrightarrow>
           p = Rejected e \<and> nextModule w' = nextModule w \<and> modules w' = modules w"
    and "loadError env (fst (loader_arguments k)) (snd (loader_arguments k))
                (length (loaderCalls w)) = None \<Longrightarrow>
           nextModule w' = Suc (nextModule w) \<and> module_frame (nextModule w) w w'"
proof -
  let ?d = "fst (loader_arguments k)" and ?n = "snd (loader_arguments k)"
  obtain f where sh: "createHasher env k w = promise_then (WASMInterface env ?d ?n w) f"
    and fr: "\<And>m w1. same_loading w1 (snd (f m w1)) \<and> module_frame m w1 (snd (f m w1))"
    using createHasher_shape[OF assms(2), of env w] by blast
  obtain q w1 where l: "WASMInterface env ?d ?n w = (q, w1)"
    by (cases "WASMInterface env ?d ?n w")
  note L = WASMInterface_outcome[OF l]
  have pt: "promise_then (q, w1) f = (p, w')" using assms(1) sh l by simp
  note P = promise_then_cases[OF pt]
  have qn: "q \<noteq> Pending" using WASMInterface_not_Pending[of env ?d ?n w] l by simp
  show "p \<noteq> Pending"
    using pt qn by (cases q) (auto simp: promise_then_def split: prod.splits sum.splits)
  have sl: "same_loading w1 w'"
    using P fr by (auto simp: same_loading_refl)
  show "loaderCalls w' = loaderCalls w @ [loader_arguments k]"
    using sl L(1) by (simp add: same_loading_def)
  show "p = Rejected e \<and> nextModule w' = nextModule w \<and> modules w' = modules w"
    if "loadError env ?d ?n (length (loaderCalls w)) = Some e" for e
    using L(2)[OF that] P by auto
  show "nextModule w' = Suc (nextModule w) \<and> module_frame (nextModule w) w w'"
    if "loadError env ?d ?n (length (loaderCalls w)) = None"
  proof -
    note N = L(3)[OF that]
    have "w' = snd (f (nextModule w) w1)" using N P by auto
    then have "module_frame (nextModule w) w1 w'" using fr by simp
    then have "module_frame (nextModule w) w w'"
      using N module_frame_trans by blast
    then show ?thesis using sl N by (simp add: same_loading_def)
  qed
qed

text \<open>
  C7. In every state a run of the program can reach: the Hashers the client holds have
  pairwise different modules, none of which is a cached module, and their methods
  touch no other module, no cache and no cell. Every creation in such a state,
  whatever its outcome, leaves every cache and cell as it is; unless seed validation
  rejects it (then nothing happens at all), it invokes the Module Loader exactly once,
  with the descriptor and hash length of its algorithm; when the load fails it is
  rejected with the load error; when the load succeeds a module is allocated at an
  address that no cache and no Hasher holds, and nothing but this module is changed;
  and a Hasher that is returned works on this module.
\<close>

theorem hashers_never_alias:
  assumes "perform_all env acts (initial_world, []) = (w, hs)"
  shows "distinct (map wasm_ref hs) \<and>
         (\<forall>h \<in> set hs. private_module h \<and> (\<forall>a. wasmCache w a \<noteq> Some (wasm_ref h))) \<and>
         (\<forall>k p w'. createHasher env k w = (p, w') \<longrightarrow>
            p \<noteq> Pending \<and> wasmCache w' = wasmCache w \<and> mutex w' = mutex w \<and>
            (\<forall>e. refused k = Some e \<longrightarrow> p = Rejected e \<and> w' = w) \<and>
            (refused k = None \<longrightarrow>
               loaderCalls w' = loaderCalls w @ [loader_arguments k] \<and>
               (\<forall>e. loadError env (fst (loader_arguments k)) (snd (loader_arguments k))
                      (length (loaderCalls w)) = Some e \<longrightarrow>
                    p = Rejected e \<and> nextModule w' = nextModule w \<and> modules w' = modules w) \<and>
               (loadError env (fst (loader_arguments k)) (snd (loader_arguments k))
                      (length (loaderCalls w)) = None \<longrightarrow>
                    nextModule w' = Suc (nextModule w) \<and>
                    module_frame (nextModule w) w w' \<and>
                    nextModule w \<notin> wasm_ref ` set hs \<and>
                    (\<forall>a. wasmCache w' a \<noteq> Some (nextModule w)))) \<and>
            (\<forall>h. p = Fulfilled h \<longrightarrow>
               wasm_ref h = nextModule w \<and> private_module h \<and>
               wasm_ref h \<notin> wasm_ref ` set hs \<and>
               (\<forall>a. wasmCache w' a \<noteq> Some (wasm_ref h))))"
proof -
  have iso: "isolated (w, hs)"
    using isolated_perform_all[OF isolated_initial, of env acts] assms by simp
  then have d: "distinct (map wasm_ref hs)"
    and H: "\<And>h. h \<in> set hs \<Longrightarrow> wasm_ref h < nextModule w \<and> private_module h \<and>
              (\<forall>a. wasmCache w a \<noteq> Some (wasm_ref h))"
    and wc: "\<And>a c. wasmCache w a = Some c \<Longrightarrow> c < nextModule w"
    by (auto simp: isolated_def wf_world_def)
  have p2: "\<forall>h \<in> set hs. private_module h \<and> (\<forall>a. wasmCache w a \<noteq> Some (wasm_ref h))"
    using H by blast
  have n: "nextModule w \<notin> wasm_ref ` set hs"
  proof
    assume "nextModule w \<in> wasm_ref ` set hs"
    then obtain x where x: "x \<in> set hs" and e: "nextModule w = wasm_ref x" by auto
    have "wasm_ref x < nextModule w" using H[OF x] by simp
    then show False using e by simp
  qed
  have nc: "wasmCache w a \<noteq> Some (nextModule w)" for a
    using wc[of a "nextModule w"] by auto
  have p3: "p \<noteq> Pending \<and> wasmCache w' = wasmCache w \<and> mutex w' = mutex w \<and>
            (\<forall>e. refused k = Some e \<longrightarrow> p = Rejected e \<and> w' = w) \<and>
            (refused k = None \<longrightarrow>
               loaderCalls w' = loaderCalls w @ [loader_arguments k] \<and>
               (\<forall>e. loadError env (fst (loader_arguments k)) (snd (loader_arguments k))
                      (length (loaderCalls w)) = Some e \<longrightarrow>
                    p = Rejected e \<and> nextModule w' = nextModule w \<and> modules w' = modules w) \<and>
               (loadError env (fst (loader_arguments k)) (snd (loader_arguments k))
                      (length (loaderCalls w)) = None \<longrightarrow>
                    nextModule w' = Suc (nextModule w) \<and>
                    module_frame (nextModule w) w w' \<and>
                    nextModule w \<notin> wasm_ref ` set hs \<and>
                    (\<forall>a. wasmCache w' a \<noteq> Some (nextModule w)))) \<and>
            (\<forall>h. p = Fulfilled h \<longrightarrow>
               wasm_ref h = nextModule w \<and> private_module h \<and>
               wasm_ref h \<notin> wasm_ref ` set hs \<and>
               (\<forall>a. wasmCache w' a \<noteq> Some (wasm_ref h)))"
    if c: "createHasher env k w = (p, w')" for k p w'
  proof -
    note E = createHasher_effect[OF c]
    have nc': "wasmCache w' a \<noteq> Some (nextModule w)" for a
      using nc E(1) by simp
    have a1: "p \<noteq> Pending"
    proof (cases "refused k")
      case None
      then show ?thesis using createHasher_loader(1)[OF c] by simp
    next
      case (Some e)
      then show ?thesis using createHasher_refused[of k e env w] c by simp
    qed
    have a2: "\<forall>e. refused k = Some e \<longrightarrow> p = Rejected e \<and> w' = w"
      using createHasher_refused[of k _ env w] c by auto
    have a3: "refused k = None \<longrightarrow>
               loaderCalls w' = loaderCalls w @ [loader_arguments k] \<and>
               (\<forall>e. loadError env (fst (loader_arguments k)) (snd (loader_arguments k))
                      (length (loaderCalls w)) = Some e \<longrightarrow>
                    p = Rejected e \<and> nextModule w' = nextModule w \<and> modules w' = modules w) \<and>
               (loadError env (fst (loader_arguments k)) (snd (loader_arguments k))
                      (length (loaderCalls w)) = None \<longrightarrow>
                    nextModule w' = Suc (nextModule w) \<and>
                    module_frame (nextModule w) w w' \<and>
                    nextModule w \<notin> wasm_ref ` set hs \<and>
                    (\<forall>a. wasmCache w' a \<noteq> Some (nextModule w)))"
      using createHasher_loader(2-4)[OF c] n nc' by blast
    have a4: "\<forall>h. p = Fulfilled h \<longrightarrow>
               wasm_ref h = nextModule w \<and> private_module h \<and>
               wasm_ref h \<notin> wasm_ref ` set hs \<and>
               (\<forall>a. wasmCache w' a \<noteq> Some (wasm_ref h))"
    proof (intro allI impI)
      fix h assume "p = Fulfilled h"
      then have f: "createHasher env k w = (Fulfilled h, w')" using c by simp
      note F = createHasher_Fulfilled[OF f]
      show "wasm_ref h = nextModule w \<and> private_module h \<and>
               wasm_ref h \<notin> wasm_ref ` set hs \<and>
               (\<forall>a. wasmCache w' a \<noteq> Some (wasm_ref h))"
        using F(1,8) n nc' by simp
    qed
    show ?thesis using a1 a2 a3 a4 E(1,2) by (intro conjI)
  qed
  show ?thesis using d p2 p3 by blast
qed

theorem hashers_never_alias_witness:
  "map wasm_ref (snd sample_run) = [1, 2] \<and>
   wasmCache (fst sample_run) CRC32 = Some 0 \<and>
   distinct (map wasm_ref (snd sample_run)) \<and>
   (\<exists>h w'. createHasher plain_backend (CreateXXHash64 (Some (Num 1)) (Some (Num 2))) (fst sample_run) =
              (Fulfilled h, w') \<and>
           wasm_ref h = 3 \<and>
           loaderCalls w' = [(Crc32Wasm, 4), (Crc32Wasm, 4), (Xxhash64Wasm, 8), (Xxhash64Wasm, 8)] \<and>
           nextModule w' = 4 \<and>
           wasmCache w' = wasmCache (fst sample_run) \<and>
           wasm_ref h \<notin> wasm_ref ` set (snd sample_run)) \<and>
   (\<exists>h w'. createHasher plain_backend CreateSHA224 (fst sample_run) = (Fulfilled h, w') \<and>
           wasm_ref h = 3 \<and>
           loaderCalls w' = [(Crc32Wasm, 4), (Crc32Wasm, 4), (Xxhash64Wasm, 8), (Sha256Wasm, 28)]) \<and>
   (\<exists>e. createHasher plain_backend (CreateXXHash64 (Some (Num (- 1))) None) (fst sample_run) =
           (Rejected e, fst sample_run))"
proof -
  let ?kx = "CreateXXHash64 (Some (Num 1)) (Some (Num 2))"
  have e: "perform_all plain_backend
       [Calculate (Crc32Request (StringData ''abc'')), Create CreateCRC32,
        Create (CreateXXHash64 (Some (Num 7)) None),
        Invoke 0 (CallUpdate (StringData ''abc''))]
       (initial_world, []) = (fst sample_run, snd sample_run)"
    by (simp add: sample_run_def)
  note T = hashers_never_alias[OF e]
  have m: "map wasm_ref (snd sample_run) = [1, 2]"
    by (simp add: sample_run_def run_defs seed_defs replicate_8 replicate_16)
  have c: "wasmCache (fst sample_run) CRC32 = Some 0"
    by (simp add: sample_run_def run_defs seed_defs replicate_8 replicate_16)
  have n: "nextModule (fst sample_run) = 3"
    by (simp add: sample_run_def run_defs seed_defs replicate_8 replicate_16)
  have l: "loaderCalls (fst sample_run) = [(Crc32Wasm, 4), (Crc32Wasm, 4), (Xxhash64Wasm, 8)]"
    by (simp add: sample_run_def run_defs seed_defs replicate_8 replicate_16)
  have le: "loadError plain_backend d k i = None" for d k i
    by (simp add: plain_backend_def)
  have rx: "refused ?kx = None" "refused CreateSHA224 = None"
    by (simp_all add: seedParam_def validateSeed_def)
  obtain ex where rn: "refused (CreateXXHash64 (Some (Num (- 1))) None) = Some ex"
    by (simp add: seedParam_def validateSeed_def)
  obtain h w' where k: "createHasher plain_backend ?kx (fst sample_run) = (Fulfilled h, w')"
    by (simp add: createXXHash64_def Let_def promise_then_def WASMInterface_def loader_settle_def
        loader_invoke_def plain_backend_def xxhash64_init_def wasm_writeMemory_def wasm_init_def
        run_entry_def seedParam_def seed_defs replicate_8 replicate_16)
  obtain h2 w2 where k2: "createHasher plain_backend CreateSHA224 (fst sample_run) = (Fulfilled h2, w2)"
    by (simp add: createSHA224_def promise_then_def WASMInterface_def loader_settle_def
        loader_invoke_def plain_backend_def wasm_init_def run_entry_def)
  obtain p3 w3 where k3:
    "createHasher plain_backend (CreateXXHash64 (Some (Num (- 1))) None) (fst sample_run) = (p3, w3)"
    by (cases "createHasher plain_backend (CreateXXHash64 (Some (Num (- 1))) None) (fst sample_run)")
  note Tk = T[THEN conjunct2, THEN conjunct2, rule_format, OF k]
  note Tk2 = T[THEN conjunct2, THEN conjunct2, rule_format, OF k2]
  note Tk3 = T[THEN conjunct2, THEN conjunct2, rule_format, OF k3]
  have K: "loaderCalls w' = loaderCalls (fst sample_run) @ [loader_arguments ?kx] \<and>
           nextModule w' = Suc (nextModule (fst sample_run)) \<and>
           wasmCache w' = wasmCache (fst sample_run) \<and>
           wasm_ref h = nextModule (fst sample_run) \<and>
           wasm_ref h \<notin> wasm_ref ` set (snd sample_run)"
    using Tk rx(1) le[of "fst (loader_arguments ?kx)" "snd (loader_arguments ?kx)"] by simp
  have K2: "loaderCalls w2 = loaderCalls (fst sample_run) @ [loader_arguments CreateSHA224] \<and>
           wasm_ref h2 = nextModule (fst sample_run)"
    using Tk2 rx(2) by simp
  have K3: "p3 = Rejected ex \<and> w3 = fst sample_run"
    using Tk3 rn by simp
  have D: "distinct (map wasm_ref (snd sample_run))"
    using T[THEN conjunct1] .
  have x1: "\<exists>h w'. createHasher plain_backend ?kx (fst sample_run) = (Fulfilled h, w') \<and>
           wasm_ref h = 3 \<and>
           loaderCalls w' = [(Crc32Wasm, 4), (Crc32Wasm, 4), (Xxhash64Wasm, 8), (Xxhash64Wasm, 8)] \<and>
           nextModule w' = 4 \<and>
           wasmCache w' = wasmCache (fst sample_run) \<and>
           wasm_ref h \<notin> wasm_ref ` set (snd sample_run)"
    using K k n l by (intro exI[of _ h] exI[of _ w']) auto
  have x2: "\<exists>h w'. createHasher plain_backend CreateSHA224 (fst sample_run) = (Fulfilled h, w') \<and>
           wasm_ref h = 3 \<and>
           loaderCalls w' = [(Crc32Wasm, 4), (Crc32Wasm, 4), (Xxhash64Wasm, 8), (Sha256Wasm, 28)]"
    using K2 k2 n l by (intro exI[of _ h2] exI[of _ w2]) auto
  have x3: "\<exists>e. createHasher plain_backend (CreateXXHash64 (Some (Num (- 1))) None) (fst sample_run) =
           (Rejected e, fst sample_run)"
    using K3 k3 by auto
  show ?thesis
    using m c D x1 x2 x3 by (intro conjI)
qed

section \<open>Failing one-shot calls\<close>

lemma lockedCreate_Empty:
  assumes "mutex w a = Empty" and "lockedCreate env a d n w = (q, w1)"
  shows "\<And>e. loadError env d n (length (loaderCalls w)) = Some e \<Longrightarrow> q = Rejected e"
    and "loadError env d n (length (loaderCalls w)) = None \<Longrightarrow> q = Fulfilled (nextModule w)"
  using assms
  by (auto simp: lockedCreate_def WASMInterface_def loader_settle_def loader_invoke_def
      split: option.splits)

text \<open>
  C5, as amended. An error raised in a one-shot call rejects the promise with that
  error. A call rejected by seed validation changes nothing. A call that finds a
  module cached settles with what its synchronous block returns or throws and leaves
  every cache as it is. A call that finds the cache empty leaves every cache as it is
  when the load fails (and is rejected with the load error); when the load succeeds,
  the loaded module is in the cache of its algorithm after the call whatever the
  calculation did, and the promise settles with what the synchronous block returned
  or threw on that module. The callback stores the module it is handed in the cache
  of its algorithm in whatever state it runs. No call touches the cache of another
  algorithm.
\<close>

theorem failing_call_and_cache:
  assumes "calculate env r w = (p, w')"
  shows "(\<forall>e. early r = Some e \<longrightarrow> p = Rejected e \<and> w' = w) \<and>
         (\<forall>c. early r = None \<and> wasmCache w (algorithm_of r) = Some c \<longrightarrow>
            wasmCache w' = wasmCache w \<and>
            (\<exists>x. block env r c w = (x, w') \<and>
                 p = (case x of Inl e \<Rightarrow> Rejected e | Inr h \<Rightarrow> Fulfilled h))) \<and>
         (\<forall>q w1. early r = None \<and> wasmCache w (algorithm_of r) = None \<and>
            lockedCreate env (algorithm_of r) (descriptor_of r) (hashLength_of r) w = (q, w1) \<longrightarrow>
            (\<forall>e. q = Rejected e \<longrightarrow> p = Rejected e \<and> w' = w1 \<and> wasmCache w' = wasmCache w) \<and>
            (q = Pending \<longrightarrow> p = Pending \<and> w' = w) \<and>
            (\<forall>m. q = Fulfilled m \<longrightarrow>
               wasmCache w' = (wasmCache w)(algorithm_of r := Some m) \<and>
               (\<exists>x. block env r m (w1\<lparr>wasmCache := (wasmCache w)(algorithm_of r := Some m)\<rparr>) = (x, w') \<and>
                    p = (case x of Inl e \<Rightarrow> Rejected e | Inr h \<Rightarrow> Fulfilled h)))) \<and>
         (early r = None \<and> wasmCache w (algorithm_of r) = None \<and> mutex w (algorithm_of r) = Empty \<longrightarrow>
            (\<forall>e. loadError env (descriptor_of r) (hashLength_of r) (length (loaderCalls w)) = Some e \<longrightarrow>
               p = Rejected e \<and> wasmCache w' = wasmCache w) \<and>
            (loadError env (descriptor_of r) (hashLength_of r) (length (loaderCalls w)) = None \<longrightarrow>
               wasmCache w' = (wasmCache w)(algorithm_of r := Some (nextModule w)))) \<and>
         (\<forall>m w0 x w2. loaded env r m w0 = (x, w2) \<longrightarrow>
            wasmCache w2 = (wasmCache w0)(algorithm_of r := Some m)) \<and>
         (\<forall>a. a \<noteq> algorithm_of r \<longrightarrow> wasmCache w' a = wasmCache w a)"
proof -
  let ?a = "algorithm_of r"
  let ?lc = "lockedCreate env ?a (descriptor_of r) (hashLength_of r) w"
  have s1: "\<forall>e. early r = Some e \<longrightarrow> p = Rejected e \<and> w' = w"
    using assms by (auto simp: calculate_shape)
  have s2: "wasmCache w' = wasmCache w \<and>
            (\<exists>x. block env r c w = (x, w') \<and>
                 p = (case x of Inl e \<Rightarrow> Rejected e | Inr h \<Rightarrow> Fulfilled h))"
    if "early r = None \<and> wasmCache w ?a = Some c" for c
  proof -
    have "cached env r c w = (p, w')" using assms that by (simp add: calculate_shape)
    then obtain x where b: "block env r c w = (x, w')"
      and p: "p = (case x of Inl e \<Rightarrow> Rejected e | Inr h \<Rightarrow> Fulfilled h)"
      by (auto simp: cached_block split: prod.splits sum.splits)
    have "wasmCache w' = wasmCache w"
      using block_effect(1)[OF b] by (simp add: same_loading_def)
    then show ?thesis using b p by blast
  qed
  have s3: "(\<forall>e. q = Rejected e \<longrightarrow> p = Rejected e \<and> w' = w1 \<and> wasmCache w' = wasmCache w) \<and>
            (q = Pending \<longrightarrow> p = Pending \<and> w' = w) \<and>
            (\<forall>m. q = Fulfilled m \<longrightarrow>
               wasmCache w' = (wasmCache w)(?a := Some m) \<and>
               (\<exists>x. block env r m (w1\<lparr>wasmCache := (wasmCache w)(?a := Some m)\<rparr>) = (x, w') \<and>
                    p = (case x of Inl e \<Rightarrow> Rejected e | Inr h \<Rightarrow> Fulfilled h)))"
    if h: "early r = None \<and> wasmCache w ?a = None \<and> ?lc = (q, w1)" for q w1
  proof -
    have lc: "?lc = (q, w1)" using h by simp
    have pt: "promise_then (q, w1) (loaded env r) = (p, w')"
      using assms h by (simp add: calculate_shape)
    note L = lockedCreate_effect(1)[OF lc]
    have r: "\<forall>e. q = Rejected e \<longrightarrow> p = Rejected e \<and> w' = w1 \<and> wasmCache w' = wasmCache w"
      using pt L by (auto simp: promise_then_def)
    have pe: "q = Pending \<longrightarrow> p = Pending \<and> w' = w"
    proof
      assume q: "q = Pending"
      then have "w1 = w" using lockedCreate_Pending(2)[OF lc[unfolded q]] by simp
      then show "p = Pending \<and> w' = w" using pt q by (simp add: promise_then_def)
    qed
    have f: "wasmCache w' = (wasmCache w)(?a := Some m) \<and>
               (\<exists>x. block env r m (w1\<lparr>wasmCache := (wasmCache w)(?a := Some m)\<rparr>) = (x, w') \<and>
                    p = (case x of Inl e \<Rightarrow> Rejected e | Inr h \<Rightarrow> Fulfilled h))"
      if q: "q = Fulfilled m" for m
    proof -
      obtain x where ld: "loaded env r m w1 = (x, w')"
        and p: "p = (case x of Inl e \<Rightarrow> Rejected e | Inr h \<Rightarrow> Fulfilled h)"
        using pt q by (auto simp: promise_then_def split: prod.splits sum.splits)
      have "block env r m (w1\<lparr>wasmCache := (wasmCache w)(?a := Some m)\<rparr>) = (x, w')"
        using ld L by (simp add: loaded_block)
      moreover have "wasmCache w' = (wasmCache w)(?a := Some m)"
        using loaded_effect(1)[OF ld] L by simp
      ultimately show ?thesis using p by blast
    qed
    show ?thesis using r pe f by blast
  qed
  have s4: "(\<forall>e. loadError env (descriptor_of r) (hashLength_of r) (length (loaderCalls w)) = Some e \<longrightarrow>
               p = Rejected e \<and> wasmCache w' = wasmCache w) \<and>
            (loadError env (descriptor_of r) (hashLength_of r) (length (loaderCalls w)) = None \<longrightarrow>
               wasmCache w' = (wasmCache w)(?a := Some (nextModule w)))"
    if h: "early r = None \<and> wasmCache w ?a = None \<and> mutex w ?a = Empty"
  proof -
    obtain q w1 where lc: "?lc = (q, w1)" by (cases ?lc)
    have e: "mutex w ?a = Empty" using h by simp
    note S = s3[of q w1] and E = lockedCreate_Empty[OF e lc]
    show ?thesis using S E h lc by auto
  qed
  have s5: "\<forall>m w0 x w2. loaded env r m w0 = (x, w2) \<longrightarrow>
            wasmCache w2 = (wasmCache w0)(?a := Some m)"
    using loaded_effect(1) by blast
  have s6: "wasmCache w' a = wasmCache w a" if a: "a \<noteq> ?a" for a
  proof (cases "early r")
    case (Some e)
    then show ?thesis using s1 by simp
  next
    case None
    show ?thesis
    proof (cases "wasmCache w ?a")
      case (Some c)
      then show ?thesis using s2[of c] None by simp
    next
      case miss: None
      obtain q w1 where lc: "?lc = (q, w1)" by (cases ?lc)
      note S = s3[of q w1]
      show ?thesis using S None miss lc a by (cases q) auto
    qed
  qed
  have t2: "\<forall>c. early r = None \<and> wasmCache w ?a = Some c \<longrightarrow>
            wasmCache w' = wasmCache w \<and>
            (\<exists>x. block env r c w = (x, w') \<and>
                 p = (case x of Inl e \<Rightarrow> Rejected e | Inr h \<Rightarrow> Fulfilled h))"
    using s2 by blast
  have t3: "\<forall>q w1. early r = None \<and> wasmCache w ?a = None \<and> ?lc = (q, w1) \<longrightarrow>
            (\<forall>e. q = Rejected e \<longrightarrow> p = Rejected e \<and> w' = w1 \<and> wasmCache w' = wasmCache w) \<and>
            (q = Pending \<longrightarrow> p = Pending \<and> w' = w) \<and>
            (\<forall>m. q = Fulfilled m \<longrightarrow>
               wasmCache w' = (wasmCache w)(?a := Some m) \<and>
               (\<exists>x. block env r m (w1\<lparr>wasmCache := (wasmCache w)(?a := Some m)\<rparr>) = (x, w') \<and>
                    p = (case x of Inl e \<Rightarrow> Rejected e | Inr h \<Rightarrow> Fulfilled h)))"
    using s3 by blast
  have t4: "early r = None \<and> wasmCache w ?a = None \<and> mutex w ?a = Empty \<longrightarrow>
            (\<forall>e. loadError env (descriptor_of r) (hashLength_of r) (length (loaderCalls w)) = Some e \<longrightarrow>
               p = Rejected e \<and> wasmCache w' = wasmCache w) \<and>
            (loadError env (descriptor_of r) (hashLength_of r) (length (loaderCalls w)) = None \<longrightarrow>
               wasmCache w' = (wasmCache w)(?a := Some (nextModule w)))"
    using s4 by blast
  have t6: "\<forall>a. a \<noteq> ?a \<longrightarrow> wasmCache w' a = wasmCache w a"
    using s6 by blast
  show ?thesis using s1 t2 t3 t4 s5 t6 by (intro conjI)
qed

theorem failing_call_and_cache_witness:
  "fst (calculate strict_backend (Sha224Request (StringData ''abc'')) initial_world) =
     Rejected ComputeError \<and>
   wasmCache (snd (calculate strict_backend (Sha224Request (StringData ''abc'')) initial_world)) =
     (wasmCache initial_world)(SHA224 := Some 0) \<and>
   fst (calculate broken_backend (Crc32Request (StringData ''abc'')) initial_world) =
     Rejected LoadError \<and>
   wasmCache (snd (calculate broken_backend (Crc32Request (StringData ''abc'')) initial_world)) =
     wasmCache initial_world \<and>
   fst (calculate strict_backend (Xxhash64Request (StringData ''abc'') (Some (Num 1)) (Some (Num 2)))
          (snd (calculate strict_backend
                  (Xxhash64Request (StringData ''abc'') (Some (Num 1)) (Some (Num 2))) initial_world))) =
     Rejected ComputeError \<and>
   wasmCache (snd (calculate strict_backend
                  (Xxhash64Request (StringData ''abc'') (Some (Num 1)) (Some (Num 2))) initial_world))
       XXHASH64 = Some 0 \<and>
   wasmCache (snd (calculate strict_backend (Xxhash64Request (StringData ''abc'') (Some (Num 1)) (Some (Num 2)))
          (snd (calculate strict_backend
                  (Xxhash64Request (StringData ''abc'') (Some (Num 1)) (Some (Num 2))) initial_world)))) =
     wasmCache (snd (calculate strict_backend
                  (Xxhash64Request (StringData ''abc'') (Some (Num 1)) (Some (Num 2))) initial_world)) \<and>
   snd (calculate plain_backend (Xxhash64Request (StringData ''abc'') (Some (Num (- 1))) None)
          initial_world) = initial_world"
proof -
  let ?r1 = "Crc32Request (StringData ''abc'')"
  let ?r2 = "Sha224Request (StringData ''abc'')"
  let ?r3 = "Xxhash64Request (StringData ''abc'') (Some (Num 1)) (Some (Num 2))"
  let ?r4 = "Xxhash64Request (StringData ''abc'') (Some (Num (- 1))) None"
  let ?w3 = "snd (calculate strict_backend ?r3 initial_world)"
  have iw: "wasmCache initial_world a = None" "mutex initial_world a = Empty"
    "nextModule initial_world = 0" "loaderCalls initial_world = []" for a
    by (simp_all add: initial_world_def)
  have v: "early ?r1 = None" "early ?r2 = None" "early ?r3 = None"
    by (simp_all add: seedParam_def validateSeed_def)
  obtain e4 where v4: "early ?r4 = Some e4"
    by (simp add: seedParam_def validateSeed_def)
  have f2: "fst (calculate strict_backend ?r2 initial_world) = Rejected ComputeError"
    by (simp add: run_defs)
  have f3: "fst (calculate strict_backend ?r3 ?w3) = Rejected ComputeError"
    by (simp add: run_defs seed_defs replicate_8 replicate_16)
  have c3: "wasmCache ?w3 XXHASH64 = Some 0"
    by (simp add: run_defs seed_defs replicate_8 replicate_16)
  have l1: "loadError broken_backend (descriptor_of ?r1) (hashLength_of ?r1)
              (length (loaderCalls initial_world)) = Some LoadError"
    by (simp add: broken_backend_def)
  have l2: "loadError strict_backend (descriptor_of ?r2) (hashLength_of ?r2)
              (length (loaderCalls initial_world)) = None"
    by (simp add: strict_backend_def plain_backend_def)
  have e1: "calculate broken_backend ?r1 initial_world =
    (fst (calculate broken_backend ?r1 initial_world), snd (calculate broken_backend ?r1 initial_world))"
    by simp
  have e2: "calculate strict_backend ?r2 initial_world =
    (fst (calculate strict_backend ?r2 initial_world), snd (calculate strict_backend ?r2 initial_world))"
    by simp
  have e3: "calculate strict_backend ?r3 ?w3 =
    (fst (calculate strict_backend ?r3 ?w3), snd (calculate strict_backend ?r3 ?w3))"
    by simp
  have e4: "calculate plain_backend ?r4 initial_world =
    (fst (calculate plain_backend ?r4 initial_world), snd (calculate plain_backend ?r4 initial_world))"
    by simp
  note T1 = failing_call_and_cache[OF e1, THEN conjunct2, THEN conjunct2, THEN conjunct2, THEN conjunct1]
  note T2 = failing_call_and_cache[OF e2, THEN conjunct2, THEN conjunct2, THEN conjunct2, THEN conjunct1]
  note T3 = failing_call_and_cache[OF e3, THEN conjunct2, THEN conjunct1, rule_format, of 0]
  note T4 = failing_call_and_cache[OF e4, THEN conjunct1, rule_format, OF v4]
  have a1: "fst (calculate broken_backend ?r1 initial_world) = Rejected LoadError \<and>
    wasmCache (snd (calculate broken_backend ?r1 initial_world)) = wasmCache initial_world"
    using T1 v(1) iw(1,2) l1 by simp
  have a2: "wasmCache (snd (calculate strict_backend ?r2 initial_world)) =
     (wasmCache initial_world)(SHA224 := Some 0)"
    using T2 v(2) iw l2 by simp
  have a3: "wasmCache (snd (calculate strict_backend ?r3 ?w3)) = wasmCache ?w3"
    using T3 v(3) c3 by simp
  have a4: "snd (calculate plain_backend ?r4 initial_world) = initial_world"
    using T4 by simp
  show ?thesis
    using f2 a2 a1 f3 c3 a3 a4 by (intro conjI) simp_all
qed

text \<open>
  C5 as stated fails, for each of the three functions: on a backend whose \<^verbatim>\<open>update\<close>
  throws, the first call loads the module without a load error, is rejected with the
  error of the calculation, and leaves the cache changed from \<^verbatim>\<open>null\<close> to the loaded
  module.
\<close>

theorem failing_first_call_fills_cache:
  "fst (calculate strict_backend (Crc32Request (StringData ''abc'')) initial_world) =
     Rejected ComputeError \<and>
   loadError strict_backend Crc32Wasm 4 0 = None \<and>
   wasmCache initial_world CRC32 = None \<and>
   wasmCache (snd (calculate strict_backend (Crc32Request (StringData ''abc'')) initial_world)) CRC32 =
     Some 0 \<and>
   fst (calculate strict_backend (Sha224Request (StringData ''abc'')) initial_world) =
     Rejected ComputeError \<and>
   loadError strict_backend Sha256Wasm 28 0 = None \<and>
   wasmCache initial_world SHA224 = None \<and>
   wasmCache (snd (calculate strict_backend (Sha224Request (StringData ''abc'')) initial_world)) SHA224 =
     Some 0 \<and>
   fst (calculate strict_backend
          (Xxhash64Request (StringData ''abc'') (Some (Num 1)) (Some (Num 2))) initial_world) =
     Rejected ComputeError \<and>
   loadError strict_backend Xxhash64Wasm 8 0 = None \<and>
   wasmCache initial_world XXHASH64 = None \<and>
   wasmCache (snd (calculate strict_backend
          (Xxhash64Request (StringData ''abc'') (Some (Num 1)) (Some (Num 2))) initial_world)) XXHASH64 =
     Some 0"
  by (simp add: run_defs seed_defs replicate_8 replicate_16)

section \<open>The seed of a one-shot call and the buffer it is encoded into\<close>






end
